theory Spec2Isabelle
  imports Main "HOL-Library.Word" "HOL-Library.Multiset" "HOL-Library.Sublist"
begin

unbundle bit_operations_syntax

section \<open>Byte strings and the library routines called by the fetcher\<close>

text \<open>
  Go strings and byte slices are sequences of bytes; they are modelled as \<open>string\<close>
  (a list of 8-bit characters). Status codes, flag values and lengths are Go \<open>int\<close>s on
  which the program does no arithmetic; they are modelled as \<open>int\<close>.

  The standard-library routines the program calls on byte strings are modelled here by
  their documented behaviour on the arguments the program passes.
\<close>

subsection \<open>The pattern \<open>(?i)<html\<close> (\<open>isHTML\<close>, main.go line 111)\<close>

text \<open>
  \<open>isHTML.Match\<close> reports whether the body holds, at some position, the byte \<open><\<close>
  followed by the letters h, t, m, l in either case (none of these letters folds to a
  character outside ASCII). \<open>html_here\<close> is a match that starts at the first byte.
\<close>

definition lowerASCII :: "char \<Rightarrow> char" where
  "lowerASCII c =
     (case map_of (zip ''ABCDEFGHIJKLMNOPQRSTUVWXYZ'' ''abcdefghijklmnopqrstuvwxyz'') c of
        Some l \<Rightarrow> l | None \<Rightarrow> c)"

definition html_here :: "string \<Rightarrow> bool" where
  "html_here s \<longleftrightarrow> 5 \<le> length s \<and> map lowerASCII (take 5 s) = ''<html''"

fun isHTML_Match :: "string \<Rightarrow> bool" where
  "isHTML_Match [] = False"
| "isHTML_Match (c # cs) = (html_here (c # cs) \<or> isHTML_Match cs)"

subsection \<open>\<open>bytes.TrimSpace\<close>\<close>

text \<open>
  \<open>bytes.TrimSpace\<close> removes leading and trailing white space as defined by Unicode,
  reading the bytes as UTF-8. \<open>spaceRunes\<close> lists the UTF-8 encodings of the runes for
  which \<open>unicode.IsSpace\<close> holds: tab, line feed, vertical tab, form feed, carriage
  return, space, U+0085, U+00A0, U+1680, U+2000 to U+200A, U+2028, U+2029, U+202F, U+205F
  and U+3000. A byte that starts no valid encoding decodes to the replacement rune, which
  is not a space.
\<close>

definition spaceRunes :: "string list" where
  "spaceRunes =
     [[CHR 0x09], [CHR 0x0A], [CHR 0x0B], [CHR 0x0C], [CHR 0x0D], [CHR 0x20],
      [CHR 0xC2, CHR 0x85], [CHR 0xC2, CHR 0xA0],
      [CHR 0xE1, CHR 0x9A, CHR 0x80],
      [CHR 0xE2, CHR 0x80, CHR 0x80], [CHR 0xE2, CHR 0x80, CHR 0x81],
      [CHR 0xE2, CHR 0x80, CHR 0x82], [CHR 0xE2, CHR 0x80, CHR 0x83],
      [CHR 0xE2, CHR 0x80, CHR 0x84], [CHR 0xE2, CHR 0x80, CHR 0x85],
      [CHR 0xE2, CHR 0x80, CHR 0x86], [CHR 0xE2, CHR 0x80, CHR 0x87],
      [CHR 0xE2, CHR 0x80, CHR 0x88], [CHR 0xE2, CHR 0x80, CHR 0x89],
      [CHR 0xE2, CHR 0x80, CHR 0x8A],
      [CHR 0xE2, CHR 0x80, CHR 0xA8], [CHR 0xE2, CHR 0x80, CHR 0xA9],
      [CHR 0xE2, CHR 0x80, CHR 0xAF],
      [CHR 0xE2, CHR 0x81, CHR 0x9F],
      [CHR 0xE3, CHR 0x80, CHR 0x80]]"

text \<open>The width of the white-space rune a byte string starts with; 0 when it starts with none.\<close>

definition leadingSpace :: "string \<Rightarrow> nat" where
  "leadingSpace s = (case find (\<lambda>e. prefix e s) spaceRunes of None \<Rightarrow> 0 | Some e \<Rightarrow> length e)"

text \<open>The width of the white-space rune a byte string ends with; 0 when it ends with none.\<close>

definition trailingSpace :: "string \<Rightarrow> nat" where
  "trailingSpace s = (case find (\<lambda>e. suffix e s) spaceRunes of None \<Rightarrow> 0 | Some e \<Rightarrow> length e)"

lemma leadingSpace_le: "leadingSpace s \<le> length s"
  by (auto simp: leadingSpace_def find_Some_iff prefix_length_le split: option.splits)

lemma trailingSpace_le: "trailingSpace s \<le> length s"
  by (auto simp: trailingSpace_def find_Some_iff suffix_length_le split: option.splits)

function TrimLeftSpace :: "string \<Rightarrow> string" where
  "TrimLeftSpace s =
     (if leadingSpace s = 0 then s else TrimLeftSpace (drop (leadingSpace s) s))"
  by pat_completeness auto
termination
proof (relation "measure length")
  fix s :: string assume "leadingSpace s \<noteq> 0"
  then show "(drop (leadingSpace s) s, s) \<in> measure length"
    using leadingSpace_le [of s] by (cases s) auto
qed simp

function TrimRightSpace :: "string \<Rightarrow> string" where
  "TrimRightSpace s =
     (if trailingSpace s = 0 then s
      else TrimRightSpace (take (length s - trailingSpace s) s))"
  by pat_completeness auto
termination
proof (relation "measure length")
  fix s :: string assume "trailingSpace s \<noteq> 0"
  then show "(take (length s - trailingSpace s) s, s) \<in> measure length"
    using trailingSpace_le [of s] by (cases s) auto
qed simp

declare TrimLeftSpace.simps [simp del] TrimRightSpace.simps [simp del]

text \<open>\<open>TrimFunc(s, unicode.IsSpace)\<close>: the left trim first, then the right trim.\<close>

definition TrimSpace :: "string \<Rightarrow> string" where
  "TrimSpace s = TrimRightSpace (TrimLeftSpace s)"

subsection \<open>\<open>bytes.Contains\<close>\<close>

fun Contains :: "string \<Rightarrow> string \<Rightarrow> bool" where
  "Contains [] subslice = (subslice = [])"
| "Contains (c # cs) subslice = (prefix subslice (c # cs) \<or> Contains cs subslice)"

section \<open>Flag values (main.go lines 314 to 349)\<close>

type_synonym headerArgs = "string list"
type_synonym statusArgs = "int list"

text \<open>\<open>statusArgs.Includes\<close>: the loop returns at the first element equal to \<open>search\<close>.\<close>

fun Includes :: "statusArgs \<Rightarrow> int \<Rightarrow> bool" where
  "Includes [] search = False"
| "Includes (status # s) search = (if status = search then True else Includes s search)"

section \<open>The configuration read from the flags (main.go lines 51 to 96)\<close>

record config =
  requestBody :: string
  method' :: string
  headers :: headerArgs
  matchString :: string
  matchCode :: statusArgs
  filterCode :: statusArgs
  outputDir :: string
  ignoreHTMLFiles :: bool
  ignoreEmpty :: bool

section \<open>The response classifier (main.go lines 183 to 203)\<close>

text \<open>
  The five guarded \<open>return\<close> statements, in the order of the source. The result names
  the \<open>return\<close> that was taken; \<open>None\<close> means that control reached line 205, that is,
  the response is kept.
\<close>

datatype dropped = ByHTML | ByEmpty | ByMatchString | ByMatchCode | ByFilterCode

definition classify :: "config \<Rightarrow> string \<Rightarrow> int \<Rightarrow> dropped option" where
  "classify cfg responseBody StatusCode =
     (if ignoreHTMLFiles cfg \<and> isHTML_Match responseBody then Some ByHTML
      else if ignoreEmpty cfg \<and> length (TrimSpace responseBody) = 0 then Some ByEmpty
      else if matchString cfg \<noteq> [] \<and> \<not> Contains responseBody (matchString cfg)
        then Some ByMatchString
      else if length (matchCode cfg) > 0 \<and> \<not> Includes (matchCode cfg) StatusCode
        then Some ByMatchCode
      else if length (filterCode cfg) > 0 \<and> \<not> Includes (filterCode cfg) StatusCode
        then Some ByFilterCode
      else None)"

section \<open>More library routines: splitting, joining, formatting\<close>

subsection \<open>\<open>strings.Split\<close>, \<open>strings.SplitN\<close>, \<open>strings.Join\<close>\<close>

text \<open>
  \<open>strings.Split(s, sep)\<close> for a separator of one byte (the program splits on \<open>" "\<close> and
  on \<open>"\n"\<close>): the fragments between the separators, one more than there are separators.
\<close>

fun Split :: "string \<Rightarrow> char \<Rightarrow> string list" where
  "Split [] sep = [[]]"
| "Split (c # cs) sep =
     (if c = sep then [] # Split cs sep
      else (case Split cs sep of f # fs \<Rightarrow> (c # f) # fs | [] \<Rightarrow> [[c]]))"

text \<open>
  \<open>strings.SplitN(s, sep, 2)\<close> for a separator of one byte: the text before the first
  separator and the text after it, or the whole string alone when there is no separator.
\<close>

definition SplitN2 :: "string \<Rightarrow> char \<Rightarrow> string list" where
  "SplitN2 s sep =
     (if sep \<in> set s
      then [takeWhile (\<lambda>c. c \<noteq> sep) s, drop 1 (dropWhile (\<lambda>c. c \<noteq> sep) s)]
      else [s])"

fun Join :: "string list \<Rightarrow> string \<Rightarrow> string" where
  "Join [] sep = []"
| "Join [a] sep = a"
| "Join (a # b # elems) sep = a @ sep @ Join (b # elems) sep"

subsection \<open>The verbs \<open>%d\<close> and \<open>%x\<close> of \<open>fmt\<close>\<close>

definition digit :: "nat \<Rightarrow> char" where
  "digit n = ''0123456789abcdef'' ! (n mod 16)"

function decimal :: "nat \<Rightarrow> string" where
  "decimal n = (if n < 10 then [digit n] else decimal (n div 10) @ [digit (n mod 10)])"
  by pat_completeness auto
termination
  by (relation "measure id") auto

declare decimal.simps [simp del]

text \<open>\<open>%d\<close> of an integer.\<close>

definition fmt_d :: "int \<Rightarrow> string" where
  "fmt_d i = (if i < 0 then CHR ''-'' # decimal (nat (- i)) else decimal (nat i))"

text \<open>\<open>%x\<close> of a byte array: two lower-case hexadecimal digits for each byte.\<close>

definition fmt_x :: "8 word list \<Rightarrow> string" where
  "fmt_x bs = concat (map (\<lambda>b. [digit (unat (drop_bit 4 b)), digit (unat (b AND 0xF))]) bs)"

text \<open>The line feed character.\<close>

definition LF :: char where
  "LF = CHR 0x0A"

subsection \<open>\<open>http.Header\<close>\<close>

text \<open>
  A header is a Go map from canonical names to their values.
  \<open>textproto.CanonicalMIMEHeaderKey\<close> leaves a name with a byte outside the token
  characters as it is; otherwise it writes the first letter and every letter after a
  hyphen in upper case and all other letters in lower case.
\<close>

type_synonym header = "string \<rightharpoonup> string list"

definition upperASCII :: "char \<Rightarrow> char" where
  "upperASCII c =
     (case map_of (zip ''abcdefghijklmnopqrstuvwxyz'' ''ABCDEFGHIJKLMNOPQRSTUVWXYZ'') c of
        Some u \<Rightarrow> u | None \<Rightarrow> c)"

definition validHeaderFieldByte :: "char \<Rightarrow> bool" where
  "validHeaderFieldByte c \<longleftrightarrow>
     c \<in> set (''!#$%&*+-.^_`|~0123456789'' @ [CHR 0x27] @
       ''abcdefghijklmnopqrstuvwxyz'' @ ''ABCDEFGHIJKLMNOPQRSTUVWXYZ'')"

fun canonical :: "bool \<Rightarrow> string \<Rightarrow> string" where
  "canonical upper [] = []"
| "canonical upper (c # cs) =
     (let c' = (if upper then upperASCII c else lowerASCII c)
      in c' # canonical (c' = CHR ''-'') cs)"

definition CanonicalMIMEHeaderKey :: "string \<Rightarrow> string" where
  "CanonicalMIMEHeaderKey s = (if list_all validHeaderFieldByte s then canonical True s else s)"

text \<open>\<open>Header.Set\<close> replaces whatever values the name had by the one value.\<close>

definition Header_Set :: "header \<Rightarrow> string \<Rightarrow> string \<Rightarrow> header" where
  "Header_Set h key v = h(CanonicalMIMEHeaderKey key \<mapsto> [v])"

text \<open>\<open>Header.Get\<close>: the first value of the name, or the empty string.\<close>

definition Header_Get :: "header \<Rightarrow> string \<Rightarrow> string" where
  "Header_Get h key =
     (case h (CanonicalMIMEHeaderKey key) of
        None \<Rightarrow> [] | Some [] \<Rightarrow> [] | Some (v # vs) \<Rightarrow> v)"

text \<open>
  \<open>Header.Add\<close> appends a value to those of the name. A response header is built by
  adding the lines of the response in the order they arrive (\<open>ReadMIMEHeader\<close>).
\<close>

definition Header_Add :: "header \<Rightarrow> string \<times> string \<Rightarrow> header" where
  "Header_Add h kv =
     (let key = CanonicalMIMEHeaderKey (fst kv)
      in h(key \<mapsto> (case h key of None \<Rightarrow> [] | Some vs \<Rightarrow> vs) @ [snd kv]))"

definition ReadMIMEHeader :: "(string \<times> string) list \<Rightarrow> header" where
  "ReadMIMEHeader lines = foldl Header_Add Map.empty lines"

subsection \<open>\<open>path.Clean\<close>, \<open>path.Join\<close>, \<open>path.Dir\<close>\<close>

text \<open>
  \<open>path.Clean\<close> works on the elements between slashes, from left to right: an empty
  element and \<open>.\<close> are skipped, \<open>..\<close> removes the element before it when there is one
  that is not itself \<open>..\<close>, is dropped at the root of a rooted path, and is kept
  otherwise. The empty result is \<open>.\<close>.
\<close>

definition cleanElem :: "bool \<Rightarrow> string list \<Rightarrow> string \<Rightarrow> string list" where
  "cleanElem rooted out e =
     (if e = [] \<or> e = ''.'' then out
      else if e = ''..'' then
        (if out \<noteq> [] \<and> last out \<noteq> ''..'' then butlast out
         else if rooted then out
         else out @ [''..''])
      else out @ [e])"

definition path_Clean :: "string \<Rightarrow> string" where
  "path_Clean path =
     (case path of
        [] \<Rightarrow> ''.''
      | c # cs \<Rightarrow>
          (let rooted = (c = CHR ''/'');
               out = foldl (cleanElem rooted) [] (Split path (CHR ''/''))
           in if rooted then CHR ''/'' # Join out ''/''
              else if out = [] then ''.''
              else Join out ''/''))"

text \<open>
  \<open>path.Join\<close> ignores empty leading elements, joins the others with slashes and cleans
  the result; with no non-empty element it returns the empty string.
\<close>

definition path_Join :: "string list \<Rightarrow> string" where
  "path_Join elem =
     (case dropWhile (\<lambda>e. e = []) elem of
        [] \<Rightarrow> []
      | e # es \<Rightarrow> path_Clean (Join (e # es) ''/''))"

text \<open>\<open>path.Dir\<close>: everything up to the last slash, cleaned.\<close>

definition path_Dir :: "string \<Rightarrow> string" where
  "path_Dir path = path_Clean (rev (dropWhile (\<lambda>c. c \<noteq> CHR ''/'') (rev path)))"


subsection \<open>\<open>sha1.Sum\<close>\<close>

text \<open>
  SHA-1 (FIPS 180-4) on 32-bit words. The message is padded with the byte \<open>0x80\<close>, zero
  bytes and its length in bits as a 64-bit big-endian number, up to a multiple of 64
  bytes; each block of 64 bytes updates the five-word state in 80 rounds. The digest is
  the state as 20 bytes, big-endian.
\<close>

type_synonym sha1_state = "32 word \<times> 32 word \<times> 32 word \<times> 32 word \<times> 32 word"

definition sha1_pad :: "string \<Rightarrow> 8 word list" where
  "sha1_pad msg =
     (let n = length msg
      in map of_char msg @ [0x80] @ replicate ((119 - n mod 64) mod 64) 0 @
         map (\<lambda>i. ucast (drop_bit (8 * (7 - i)) (of_nat (8 * n) :: 64 word))) [0..<8])"

fun be_words :: "8 word list \<Rightarrow> 32 word list" where
  "be_words (a # b # c # d # bs) =
     (push_bit 24 (ucast a) OR push_bit 16 (ucast b) OR push_bit 8 (ucast c) OR ucast d)
       # be_words bs"
| "be_words _ = []"

fun sha1_schedule :: "nat \<Rightarrow> 32 word list \<Rightarrow> 32 word list" where
  "sha1_schedule 0 w = w"
| "sha1_schedule (Suc k) w =
     (let i = length w
      in sha1_schedule k
           (w @ [word_rotl 1 (w ! (i - 3) XOR w ! (i - 8) XOR w ! (i - 14) XOR w ! (i - 16))]))"

definition sha1_round :: "sha1_state \<Rightarrow> nat \<times> 32 word \<Rightarrow> sha1_state" where
  "sha1_round s tw =
     (case s of (a, b, c, d, e) \<Rightarrow>
        let t = fst tw;
            f = (if t < 20 then (b AND c) OR (NOT b AND d)
                 else if t < 40 then b XOR c XOR d
                 else if t < 60 then (b AND c) OR (b AND d) OR (c AND d)
                 else b XOR c XOR d);
            k = (if t < 20 then 0x5A827999 else if t < 40 then 0x6ED9EBA1
                 else if t < 60 then 0x8F1BBCDC else 0xCA62C1D6)
        in (word_rotl 5 a + f + e + k + snd tw, a, word_rotl 30 b, c, d))"

definition sha1_block :: "sha1_state \<Rightarrow> 32 word list \<Rightarrow> sha1_state" where
  "sha1_block h ws =
     (case h of (h0, h1, h2, h3, h4) \<Rightarrow>
        (case foldl sha1_round h (zip [0..<80] (sha1_schedule 64 ws)) of
           (a, b, c, d, e) \<Rightarrow> (h0 + a, h1 + b, h2 + c, h3 + d, h4 + e)))"

fun sha1_blocks :: "nat \<Rightarrow> sha1_state \<Rightarrow> 32 word list \<Rightarrow> sha1_state" where
  "sha1_blocks 0 h ws = h"
| "sha1_blocks (Suc n) h ws = sha1_blocks n (sha1_block h (take 16 ws)) (drop 16 ws)"

definition word_bytes :: "32 word \<Rightarrow> 8 word list" where
  "word_bytes w = map (\<lambda>i. ucast (drop_bit (8 * (3 - i)) w)) [0..<4]"

definition sha1_Sum :: "string \<Rightarrow> 8 word list" where
  "sha1_Sum data =
     (let ws = be_words (sha1_pad data)
      in case sha1_blocks (length ws div 16)
                (0x67452301, 0xEFCDAB89, 0x98BADCFE, 0x10325476, 0xC3D2E1F0) ws of
           (a, b, c, d, e) \<Rightarrow> concat (map word_bytes [a, b, c, d, e]))"


section \<open>Requests, responses and the world outside the program\<close>

text \<open>
  \<open>url\<close> holds what the program reads from a parsed \<open>url.URL\<close>: the result of
  \<open>Hostname()\<close> and the field \<open>Path\<close>.
\<close>

record url =
  Hostname :: string
  Path :: string

text \<open>
  The request handed to \<open>client.Do\<close>: \<open>Method\<close> is the field \<open>req.Method\<close> that
  \<open>http.NewRequest\<close> has set, \<open>RawURL\<close> the address the program gave to it, \<open>URL\<close> the
  parsed address, \<open>ReqHeader\<close> the header after the calls of \<open>Header.Set\<close>, and \<open>ReqBody\<close>
  the reader \<open>b\<close> (\<open>None\<close> for \<open>nil\<close>).
\<close>

record request =
  Method :: string
  RawURL :: string
  URL :: url
  ReqHeader :: header
  ReqBody :: "string option"

text \<open>
  The response as the program reads it. \<open>Body\<close> is the outcome of
  \<open>ioutil.ReadAll(resp.Body)\<close>: the error message or the bytes.
\<close>

record response =
  StatusCode :: int
  Status :: string
  Proto :: string
  Header :: header
  Body :: "string + string"

text \<open>
  Everything the task asks of the outside world is a parameter: whether the line parses
  (\<open>url.ParseRequestURI\<close>), whether the request can be made and what its address is
  (\<open>http.NewRequest\<close>), the answer of the network (\<open>client.Do\<close>), the order in which
  \<open>range\<close> visits the keys of a map (Go leaves it unspecified), and whether each file
  operation succeeds. An error is the text of \<open>err.Error()\<close>.
\<close>

record env =
  url_ParseRequestURI :: "string \<Rightarrow> string option"
  http_NewRequest :: "string \<Rightarrow> string \<Rightarrow> string + url"
  client_Do :: "request \<Rightarrow> string + response"
  map_range :: "header \<Rightarrow> string list"
  os_MkdirAll :: "string \<Rightarrow> string option"
  ioutil_WriteFile :: "string \<Rightarrow> string \<Rightarrow> string option"
  os_Create :: "string \<Rightarrow> string option"
  io_Copy :: "string \<Rightarrow> string \<Rightarrow> string option"

text \<open>
  What a run does that can be seen from outside, in the order it happens: lines printed
  on standard output and standard error, requests sent, file operations, and the two
  operations on the wait group.
\<close>

datatype event =
    Stdout string
  | Stderr string
  | Sent request
  | MkdirAll string
  | WriteFile string string
  | Create string
  | Copy string string
  | WgAdd
  | WgDone

section \<open>The task (main.go lines 123 to 276)\<close>

text \<open>\<open>stdoutFormatStr\<close> (line 105) applied to its seven arguments.\<close>

definition stdoutFormat ::
  "string \<Rightarrow> string \<Rightarrow> int \<Rightarrow> int \<Rightarrow> int \<Rightarrow> int \<Rightarrow> string \<Rightarrow> string" where
  "stdoutFormat u loc status sz words lns typ =
     u @ '','' @ loc @ '',status: '' @ fmt_d status @ '',size: '' @ fmt_d sz @
     '',words: '' @ fmt_d words @ '',lines: '' @ fmt_d lns @ '',type: '' @ typ @ [LF]"

text \<open>The line printed at lines 145, 163 and 173.\<close>

definition errorLine :: "string \<Rightarrow> string \<Rightarrow> string" where
  "errorLine rawURL err = stdoutFormat rawURL err 0 0 0 0 ''error''"

text \<open>
  Lines 127 to 135. \<open>method\<close> is a variable of \<open>main\<close> that the task assigns to, so
  the assignment is still there for the tasks that follow.
\<close>

definition promote :: "config \<Rightarrow> config" where
  "promote cfg =
     (if requestBody cfg \<noteq> [] \<and> method' cfg = ''GET'' then cfg\<lparr>method' := ''POST''\<rparr> else cfg)"

definition bodyReader :: "config \<Rightarrow> string option" where
  "bodyReader cfg = (if requestBody cfg \<noteq> [] then Some (requestBody cfg) else None)"

text \<open>Lines 150 to 157: the loop over the \<open>-H\<close> values.\<close>

fun addHeaders :: "headerArgs \<Rightarrow> header \<Rightarrow> header" where
  "addHeaders [] hdr = hdr"
| "addHeaders (h # hs) hdr =
     (let parts = SplitN2 h (CHR '':'')
      in if length parts \<noteq> 2 then addHeaders hs hdr
         else addHeaders hs (Header_Set hdr (parts ! 0) (parts ! 1)))"

text \<open>\<open>headerArgs.Set\<close> (the flag package calls it once for each \<open>-H\<close>) and \<open>String\<close>.\<close>

definition headerArgs_Set :: "headerArgs \<Rightarrow> string \<Rightarrow> headerArgs" where
  "headerArgs_Set h val = h @ [val]"

definition headerArgs_String :: "headerArgs \<Rightarrow> string" where
  "headerArgs_String h = Join h '', ''"

text \<open>
  \<open>normalisePath\<close> (lines 351 to 354): \<open>ReplaceAllString\<close> with the pattern
  \<open>[^a-zA-Z0-9/._-]+\<close>. Scanning from the left, a byte of the class is copied, and a byte
  outside it starts a match that takes every following byte outside the class and is
  replaced by one hyphen. (Every byte of a rune outside ASCII is outside the class, so
  matching by bytes and matching by runes give the same result.)
\<close>

definition inClass :: "char \<Rightarrow> bool" where
  "inClass c \<longleftrightarrow>
     c \<in> set (''abcdefghijklmnopqrstuvwxyz'' @ ''ABCDEFGHIJKLMNOPQRSTUVWXYZ'' @
       ''0123456789'' @ ''/._-'')"

function ReplaceAllString :: "string \<Rightarrow> string" where
  "ReplaceAllString [] = []"
| "ReplaceAllString (c # cs) =
     (if inClass c then c # ReplaceAllString cs
      else CHR ''-'' # ReplaceAllString (dropWhile (\<lambda>x. \<not> inClass x) cs))"
  by pat_completeness auto
termination
  by (relation "measure length") (auto simp: length_dropWhile_le less_Suc_eq_le)

definition normalisePath :: "url \<Rightarrow> string" where
  "normalisePath u = ReplaceAllString (Path u)"

text \<open>Lines 215 to 217 and 232: the two file names.\<close>

definition contentHash :: "config \<Rightarrow> string \<Rightarrow> 8 word list" where
  "contentHash cfg rawURL =
     sha1_Sum (method' cfg @ rawURL @ requestBody cfg @ headerArgs_String (headers cfg))"

definition artifactPath :: "string \<Rightarrow> config \<Rightarrow> string \<Rightarrow> url \<Rightarrow> string \<Rightarrow> string" where
  "artifactPath prefix' cfg rawURL u ext =
     path_Join [prefix', Hostname u, normalisePath u, fmt_x (contentHash cfg rawURL) @ ext]"

text \<open>Lines 240 to 265: the text written to the \<open>.headers\<close> file.\<close>

definition responseHeaderLines :: "header \<Rightarrow> string list \<Rightarrow> string list" where
  "responseHeaderLines h ks =
     concat (map (\<lambda>k. map (\<lambda>v. ''< '' @ k @ '': '' @ v @ [LF])
                          (case h k of None \<Rightarrow> [] | Some vs \<Rightarrow> vs)) ks)"

definition transcript :: "env \<Rightarrow> config \<Rightarrow> string \<Rightarrow> response \<Rightarrow> string" where
  "transcript e cfg rawURL resp =
     method' cfg @ '' '' @ rawURL @ [LF, LF] @
     concat (map (\<lambda>h. ''> '' @ h @ [LF]) (headers cfg)) @ [LF] @
     (if requestBody cfg \<noteq> [] then requestBody cfg @ [LF, LF] else []) @
     ''< '' @ Proto resp @ '' '' @ Status resp @ [LF] @
     concat (responseHeaderLines (Header resp) (map_range e (Header resp)))"

text \<open>Lines 214 to 275: artifact mode, after the response has been kept.\<close>

definition persist ::
  "env \<Rightarrow> config \<Rightarrow> string \<Rightarrow> url \<Rightarrow> response \<Rightarrow> string \<Rightarrow> event list" where
  "persist e cfg rawURL u resp responseBody =
     (let prefix' = (if outputDir cfg = [] then ''out'' else outputDir cfg);
          p = artifactPath prefix' cfg rawURL u ''.body''
      in MkdirAll (path_Dir p) #
         (case os_MkdirAll e (path_Dir p) of
            Some err \<Rightarrow> [Stderr (''failed to create dir: '' @ err @ [LF])]
          | None \<Rightarrow>
              WriteFile p responseBody #
              (case ioutil_WriteFile e p responseBody of
                 Some err \<Rightarrow> [Stderr (''failed to write file contents: '' @ err @ [LF])]
               | None \<Rightarrow>
                   (let headersPath = artifactPath prefix' cfg rawURL u ''.headers''
                    in Create headersPath #
                       (case os_Create e headersPath of
                          Some err \<Rightarrow> [Stderr (''failed to create file: '' @ err @ [LF])]
                        | None \<Rightarrow>
                            (let buf = transcript e cfg rawURL resp
                             in Copy headersPath buf #
                                (case io_Copy e headersPath buf of
                                   Some err \<Rightarrow>
                                     [Stderr (''failed to write file contents: '' @ err @ [LF])]
                                 | None \<Rightarrow>
                                     [Stdout (p @ '': '' @ rawURL @ '' '' @
                                        fmt_d (StatusCode resp) @ [LF])])))))))"

text \<open>Lines 183 to 212: the classifier, the counts, and the summary line.\<close>

definition report ::
  "env \<Rightarrow> config \<Rightarrow> string \<Rightarrow> url \<Rightarrow> response \<Rightarrow> string \<Rightarrow> event list" where
  "report e cfg rawURL u resp responseBody =
     (case classify cfg responseBody (StatusCode resp) of
        Some d \<Rightarrow> []
      | None \<Rightarrow>
          (let ContentLength = int (length responseBody);
               wordsSize = int (length (Split responseBody (CHR '' '')));
               linesSize = int (length (Split responseBody LF))
           in if outputDir cfg = []
              then [Stdout (stdoutFormat rawURL (Header_Get (Header resp) ''Location'')
                      (StatusCode resp) ContentLength wordsSize linesSize
                      (Header_Get (Header resp) ''Content-Type''))]
              else persist e cfg rawURL u resp responseBody))"

text \<open>
  \<open>http.NewRequest\<close> reads the empty method as \<open>GET\<close>: the request it returns has the
  method \<open>GET\<close> then, and the method it was given otherwise.
\<close>

definition requestMethod :: "string \<Rightarrow> string" where
  "requestMethod m = (if m = [] then ''GET'' else m)"

text \<open>Lines 142 to 157: the request after \<open>http.NewRequest\<close> and the header loop.\<close>

definition buildRequest :: "config \<Rightarrow> string \<Rightarrow> url \<Rightarrow> request" where
  "buildRequest cfg rawURL u =
     \<lparr>Method = requestMethod (method' cfg), RawURL = rawURL, URL = u,
      ReqHeader = addHeaders (headers cfg) Map.empty, ReqBody = bodyReader cfg\<rparr>"

text \<open>
  Lines 126 to 276 without the deferred call: the events of the task, for the
  configuration after lines 127 to 135.
\<close>

definition fetch :: "env \<Rightarrow> config \<Rightarrow> string \<Rightarrow> event list" where
  "fetch e cfg rawURL =
     (case url_ParseRequestURI e rawURL of
        Some err \<Rightarrow> []
      | None \<Rightarrow>
          (case http_NewRequest e (method' cfg) rawURL of
             Inl err \<Rightarrow> [Stdout (errorLine rawURL err)]
           | Inr u \<Rightarrow>
               (let req = buildRequest cfg rawURL u
                in Sent req #
                   (case client_Do e req of
                      Inl err \<Rightarrow> [Stdout (errorLine rawURL err)]
                    | Inr resp \<Rightarrow>
                        (case Body resp of
                           Inl err \<Rightarrow> [Stdout (errorLine rawURL err)]
                         | Inr responseBody \<Rightarrow> report e cfg rawURL u resp responseBody)))))"

text \<open>
  The task: the configuration it leaves behind and its events. \<open>defer wg.Done()\<close>
  (line 124) runs on every return, after everything else.
\<close>

definition task :: "env \<Rightarrow> config \<Rightarrow> string \<Rightarrow> config \<times> event list" where
  "task e cfg rawURL = (promote cfg, fetch e (promote cfg) rawURL @ [WgDone])"

text \<open>
  Lines 117 to 279, with the tasks run one after the other in the order of the input
  lines (one of the schedules the program allows): \<open>wg.Add(1)\<close>, then the task.
\<close>

fun run :: "env \<Rightarrow> config \<Rightarrow> string list \<Rightarrow> event list" where
  "run e cfg [] = []"
| "run e cfg (rawURL # rest) =
     (case task e cfg rawURL of (cfg', evs) \<Rightarrow> WgAdd # evs @ run e cfg' rest)"

text \<open>The counter of the wait group after a sequence of events; \<open>wg.Wait()\<close> returns at 0.\<close>

fun wg_counter :: "event list \<Rightarrow> int" where
  "wg_counter [] = 0"
| "wg_counter (WgAdd # evs) = wg_counter evs + 1"
| "wg_counter (WgDone # evs) = wg_counter evs - 1"
| "wg_counter (ev # evs) = wg_counter evs"

text \<open>The lines printed on standard output, the requests sent, and the events on any output
  channel (standard output, standard error, the file system).\<close>

fun stdout_lines :: "event list \<Rightarrow> string list" where
  "stdout_lines [] = []"
| "stdout_lines (Stdout l # evs) = l # stdout_lines evs"
| "stdout_lines (ev # evs) = stdout_lines evs"

fun sent_requests :: "event list \<Rightarrow> request list" where
  "sent_requests [] = []"
| "sent_requests (Sent req # evs) = req # sent_requests evs"
| "sent_requests (ev # evs) = sent_requests evs"

fun is_output :: "event \<Rightarrow> bool" where
  "is_output WgAdd = False"
| "is_output WgDone = False"
| "is_output (Sent req) = False"
| "is_output ev = True"


section \<open>Example inputs\<close>

text \<open>The defaults of the flags (lines 51 to 94).\<close>

definition default_config :: config where
  "default_config =
     \<lparr>requestBody = [], method' = ''GET'', headers = [], matchString = [], matchCode = [],
      filterCode = [], outputDir = [], ignoreHTMLFiles = False, ignoreEmpty = False\<rparr>"

definition example_url :: url where
  "example_url = \<lparr>Hostname = ''example.test'', Path = ''/a b/c''\<rparr>"

text \<open>A response with two header names, one of them with two values.\<close>

definition example_response :: "int \<Rightarrow> string + string \<Rightarrow> response" where
  "example_response code body =
     \<lparr>StatusCode = code, Status = fmt_d code, Proto = ''HTTP/1.1'',
      Header = ReadMIMEHeader
        [(''content-type'', ''text/plain''), (''Set-Cookie'', ''a=1''), (''Set-Cookie'', ''b=2'')],
      Body = body\<rparr>"

text \<open>
  A world in which the line \<open>not-a-url\<close> does not parse, the method \<open>BAD METHOD\<close> is
  refused, the network gives the answer \<open>answer\<close>, \<open>range\<close> visits the header names in
  the order \<open>Set-Cookie\<close>, \<open>Content-Type\<close>, and the file system works unless \<open>disk\<close>
  is an error.
\<close>

definition example_env :: "string + response \<Rightarrow> string option \<Rightarrow> env" where
  "example_env answer disk =
     \<lparr>url_ParseRequestURI =
        (\<lambda>rawURL. if rawURL = ''not-a-url'' then Some ''invalid URI for request'' else None),
      http_NewRequest =
        (\<lambda>m rawURL. if m = ''BAD METHOD'' then Inl ''net/http: invalid method'' else Inr example_url),
      client_Do = (\<lambda>req. answer),
      map_range = (\<lambda>h. [''Set-Cookie'', ''Content-Type'']),
      os_MkdirAll = (\<lambda>dir. disk),
      ioutil_WriteFile = (\<lambda>p content. None),
      os_Create = (\<lambda>p. None),
      io_Copy = (\<lambda>p content. None)\<rparr>"


section \<open>The classifier: what each check decides, and in which order\<close>

subsection \<open>The checks as the specification words them\<close>

text \<open>
  A body is white space only when it is a concatenation of encoded white-space runes:
  this is what "empty after trimming surrounding white space" means for a byte string.
\<close>

definition only_white_space :: "string \<Rightarrow> bool" where
  "only_white_space body \<longleftrightarrow> (\<exists>ws. set ws \<subseteq> set spaceRunes \<and> body = concat ws)"

lemma spaceRunes_nonempty: "e \<in> set spaceRunes \<Longrightarrow> e \<noteq> []"
  by (auto simp: spaceRunes_def)

lemma spaceRunes_prefix_free:
  "e \<in> set spaceRunes \<Longrightarrow> w \<in> set spaceRunes \<Longrightarrow> prefix e w \<Longrightarrow> e = w"
  unfolding spaceRunes_def by (elim set_ConsD [elim_format] disjE; simp)

lemma leadingSpace_found:
  assumes "w \<in> set spaceRunes" "prefix w s"
  shows "leadingSpace s = length w"
proof -
  from assms obtain e where f: "find (\<lambda>e. prefix e s) spaceRunes = Some e"
    by (cases "find (\<lambda>e. prefix e s) spaceRunes") (auto simp: find_None_iff)
  then have e: "e \<in> set spaceRunes" "prefix e s"
    by (auto simp: find_Some_iff)
  from e(2) assms(2) have "prefix e w \<or> prefix w e"
    by (rule prefix_same_cases)
  with e(1) assms(1) have "e = w"
    by (auto dest: spaceRunes_prefix_free)
  with f show ?thesis by (simp add: leadingSpace_def)
qed

lemma leadingSpace_take:
  assumes "leadingSpace s \<noteq> 0"
  shows "take (leadingSpace s) s \<in> set spaceRunes"
proof -
  from assms obtain e where f: "find (\<lambda>e. prefix e s) spaceRunes = Some e"
    by (cases "find (\<lambda>e. prefix e s) spaceRunes") (auto simp: leadingSpace_def)
  then have e: "e \<in> set spaceRunes" "prefix e s"
    by (auto simp: find_Some_iff)
  from e(2) have "take (length e) s = e"
    by (auto simp: prefix_def)
  with f e(1) show ?thesis by (simp add: leadingSpace_def)
qed

lemma trailingSpace_drop:
  assumes "trailingSpace s \<noteq> 0"
  shows "drop (length s - trailingSpace s) s \<in> set spaceRunes"
proof -
  from assms obtain e where f: "find (\<lambda>e. suffix e s) spaceRunes = Some e"
    by (cases "find (\<lambda>e. suffix e s) spaceRunes") (auto simp: trailingSpace_def)
  then have e: "e \<in> set spaceRunes" "suffix e s"
    by (auto simp: find_Some_iff)
  from e(2) have "drop (length s - length e) s = e"
    by (auto simp: suffix_def)
  with f e(1) show ?thesis by (simp add: trailingSpace_def)
qed

lemma TrimLeftSpace_white: "only_white_space body \<Longrightarrow> TrimLeftSpace body = []"
proof -
  have "set ws \<subseteq> set spaceRunes \<Longrightarrow> TrimLeftSpace (concat ws) = []" for ws
  proof (induction ws)
    case Nil
    show ?case by (simp add: TrimLeftSpace.simps [of "[]"] leadingSpace_def spaceRunes_def)
  next
    case (Cons w ws)
    then have w: "w \<in> set spaceRunes" and "w \<noteq> []"
      by (auto dest: spaceRunes_nonempty)
    then have "leadingSpace (concat (w # ws)) = length w"
      by (intro leadingSpace_found) auto
    with \<open>w \<noteq> []\<close> Cons show ?case
      by (subst TrimLeftSpace.simps) simp
  qed
  then show "only_white_space body \<Longrightarrow> TrimLeftSpace body = []"
    by (auto simp: only_white_space_def)
qed

lemma TrimLeftSpace_empty_white: "TrimLeftSpace body = [] \<Longrightarrow> only_white_space body"
proof (induction body rule: TrimLeftSpace.induct)
  case (1 s)
  show ?case
  proof (cases "leadingSpace s = 0")
    case True
    with 1(2) have "s = []" by (simp add: TrimLeftSpace.simps [of s])
    then show ?thesis by (auto simp: only_white_space_def intro: exI [of _ "[]"])
  next
    case False
    with 1(2) have "TrimLeftSpace (drop (leadingSpace s) s) = []"
      by (simp add: TrimLeftSpace.simps [of s])
    with 1(1) False obtain ws where ws: "set ws \<subseteq> set spaceRunes" "drop (leadingSpace s) s = concat ws"
      by (auto simp: only_white_space_def)
    have "s = concat (take (leadingSpace s) s # ws)"
      using ws(2) by (simp flip: ws(2))
    moreover have "set (take (leadingSpace s) s # ws) \<subseteq> set spaceRunes"
      using ws(1) leadingSpace_take [OF False] by simp
    ultimately show ?thesis
      unfolding only_white_space_def by blast
  qed
qed

lemma leadingSpace_TrimLeftSpace: "leadingSpace (TrimLeftSpace s) = 0"
  by (induction s rule: TrimLeftSpace.induct) (simp add: TrimLeftSpace.simps)

lemma TrimRightSpace_empty_white: "TrimRightSpace body = [] \<Longrightarrow> only_white_space body"
proof (induction body rule: TrimRightSpace.induct)
  case (1 s)
  show ?case
  proof (cases "trailingSpace s = 0")
    case True
    with 1(2) have "s = []" by (simp add: TrimRightSpace.simps [of s])
    then show ?thesis by (auto simp: only_white_space_def intro: exI [of _ "[]"])
  next
    case False
    let ?k = "length s - trailingSpace s"
    from False 1(2) have "TrimRightSpace (take ?k s) = []"
      by (simp add: TrimRightSpace.simps [of s])
    with 1(1) False obtain ws where ws: "set ws \<subseteq> set spaceRunes" "take ?k s = concat ws"
      by (auto simp: only_white_space_def)
    have "s = concat (ws @ [drop ?k s])"
      using ws(2) by (simp flip: ws(2))
    moreover have "set (ws @ [drop ?k s]) \<subseteq> set spaceRunes"
      using ws(1) trailingSpace_drop [OF False] by simp
    ultimately show ?thesis
      unfolding only_white_space_def by blast
  qed
qed

lemma white_leadingSpace:
  assumes "only_white_space t" "t \<noteq> []"
  shows "leadingSpace t \<noteq> 0"
proof -
  from assms obtain ws where ws: "set ws \<subseteq> set spaceRunes" "t = concat ws"
    by (auto simp: only_white_space_def)
  with assms(2) obtain w ws' where "ws = w # ws'"
    by (cases ws) auto
  with ws have "w \<in> set spaceRunes" "prefix w t" "w \<noteq> []"
    by (auto dest: spaceRunes_nonempty)
  then show ?thesis
    using leadingSpace_found [of w t] by simp
qed

lemma TrimSpace_empty_iff: "TrimSpace body = [] \<longleftrightarrow> only_white_space body"
proof
  assume e: "TrimSpace body = []"
  have "TrimLeftSpace body = []"
  proof (rule ccontr)
    assume ne: "TrimLeftSpace body \<noteq> []"
    from e have "only_white_space (TrimLeftSpace body)"
      by (auto simp: TrimSpace_def intro: TrimRightSpace_empty_white)
    from white_leadingSpace [OF this ne] show False
      by (simp add: leadingSpace_TrimLeftSpace)
  qed
  then show "only_white_space body" by (rule TrimLeftSpace_empty_white)
next
  assume "only_white_space body"
  then have "TrimLeftSpace body = []" by (rule TrimLeftSpace_white)
  moreover have "TrimRightSpace [] = []"
    using trailingSpace_le [of "[]"] by (simp add: TrimRightSpace.simps [of "[]"])
  ultimately show "TrimSpace body = []" by (simp add: TrimSpace_def)
qed

text \<open>
  The body holds, somewhere, five bytes that read \<open><html\<close> when upper-case ASCII
  letters are read as lower-case ones.
\<close>

definition holds_html_marker :: "string \<Rightarrow> bool" where
  "holds_html_marker body \<longleftrightarrow>
     (\<exists>pre w suf. body = pre @ w @ suf \<and> map lowerASCII w = ''<html'')"

text \<open>
  The five drop conditions of the specification (section 4.4, items 1 to 5), stated on
  sets and substrings, and for each of them the conditions that are evaluated before it.
\<close>

fun spec_drop :: "dropped \<Rightarrow> config \<Rightarrow> string \<Rightarrow> int \<Rightarrow> bool" where
  "spec_drop ByHTML cfg body st \<longleftrightarrow> ignoreHTMLFiles cfg \<and> holds_html_marker body"
| "spec_drop ByEmpty cfg body st \<longleftrightarrow> ignoreEmpty cfg \<and> only_white_space body"
| "spec_drop ByMatchString cfg body st \<longleftrightarrow>
     matchString cfg \<noteq> [] \<and> \<not> sublist (matchString cfg) body"
| "spec_drop ByMatchCode cfg body st \<longleftrightarrow> matchCode cfg \<noteq> [] \<and> st \<notin> set (matchCode cfg)"
| "spec_drop ByFilterCode cfg body st \<longleftrightarrow> filterCode cfg \<noteq> [] \<and> st \<notin> set (filterCode cfg)"

fun earlier :: "dropped \<Rightarrow> dropped list" where
  "earlier ByHTML = []"
| "earlier ByEmpty = [ByHTML]"
| "earlier ByMatchString = [ByHTML, ByEmpty]"
| "earlier ByMatchCode = [ByHTML, ByEmpty, ByMatchString]"
| "earlier ByFilterCode = [ByHTML, ByEmpty, ByMatchString, ByMatchCode]"

lemma html_here_iff: "html_here s \<longleftrightarrow> (\<exists>w suf. s = w @ suf \<and> map lowerASCII w = ''<html'')"
proof
  assume h: "html_here s"
  then have "s = take 5 s @ drop 5 s \<and> map lowerASCII (take 5 s) = ''<html''"
    by (simp add: html_here_def)
  then show "\<exists>w suf. s = w @ suf \<and> map lowerASCII w = ''<html''"
    by (intro exI [of _ "take 5 s"] exI [of _ "drop 5 s"])
next
  assume "\<exists>w suf. s = w @ suf \<and> map lowerASCII w = ''<html''"
  then show "html_here s"
  proof (elim exE conjE)
    fix w suf assume ws: "s = w @ suf" and w: "map lowerASCII w = ''<html''"
    from w have "length (map lowerASCII w) = 5" by simp
    then have l: "length w = 5" by simp
    with ws have "take 5 s = w" by simp
    with w l ws show "html_here s"
      unfolding html_here_def by simp
  qed
qed

lemma infix_Cons:
  "(\<exists>pre w suf. c # cs = pre @ w @ suf \<and> Q w) \<longleftrightarrow>
   (\<exists>w suf. c # cs = w @ suf \<and> Q w) \<or> (\<exists>pre w suf. cs = pre @ w @ suf \<and> Q w)"
proof (intro iffI; elim exE conjE disjE)
  fix pre w suf assume *: "c # cs = pre @ w @ suf" "Q w"
  show "(\<exists>w suf. c # cs = w @ suf \<and> Q w) \<or> (\<exists>pre w suf. cs = pre @ w @ suf \<and> Q w)"
  proof (cases pre)
    case Nil
    with * have "c # cs = w @ suf \<and> Q w" by simp
    then show ?thesis by blast
  next
    case (Cons p ps)
    with * have "cs = ps @ w @ suf \<and> Q w" by simp
    then show ?thesis by blast
  qed
next
  fix w suf assume "c # cs = w @ suf" "Q w"
  then have "c # cs = [] @ w @ suf \<and> Q w" by simp
  then show "\<exists>pre w suf. c # cs = pre @ w @ suf \<and> Q w" by blast
next
  fix pre w suf assume "cs = pre @ w @ suf" "Q w"
  then have "c # cs = (c # pre) @ w @ suf \<and> Q w" by simp
  then show "\<exists>pre w suf. c # cs = pre @ w @ suf \<and> Q w" by blast
qed

lemma isHTML_Match_iff: "isHTML_Match body \<longleftrightarrow> holds_html_marker body"
proof (induction body)
  case Nil
  show ?case by (simp add: holds_html_marker_def)
next
  case (Cons c cs)
  have "isHTML_Match (c # cs) \<longleftrightarrow> html_here (c # cs) \<or> isHTML_Match cs"
    by simp
  also have "\<dots> \<longleftrightarrow> (\<exists>w suf. c # cs = w @ suf \<and> map lowerASCII w = ''<html'') \<or>
      holds_html_marker cs"
    unfolding html_here_iff Cons.IH ..
  also have "\<dots> \<longleftrightarrow> holds_html_marker (c # cs)"
    unfolding holds_html_marker_def by (rule infix_Cons [symmetric])
  finally show ?case .
qed

lemma Contains_iff: "Contains body sub \<longleftrightarrow> sublist sub body"
  by (induction body) (auto simp: sublist_Cons_right)

lemma Includes_iff: "Includes s search \<longleftrightarrow> search \<in> set s"
  by (induction s) auto

lemma all_dropped: "(\<forall>e. P e) \<longleftrightarrow> P ByHTML \<and> P ByEmpty \<and> P ByMatchString \<and> P ByMatchCode \<and> P ByFilterCode"
proof
  assume "\<forall>e. P e"
  then show "P ByHTML \<and> P ByEmpty \<and> P ByMatchString \<and> P ByMatchCode \<and> P ByFilterCode"
    by simp
next
  assume *: "P ByHTML \<and> P ByEmpty \<and> P ByMatchString \<and> P ByMatchCode \<and> P ByFilterCode"
  show "\<forall>e. P e"
  proof
    fix e show "P e" using * by (cases e) simp_all
  qed
qed

lemmas classify_spec = classify_def isHTML_Match_iff TrimSpace_empty_iff Contains_iff Includes_iff

lemma classify_spec_form:
  "classify cfg body st =
     (if spec_drop ByHTML cfg body st then Some ByHTML
      else if spec_drop ByEmpty cfg body st then Some ByEmpty
      else if spec_drop ByMatchString cfg body st then Some ByMatchString
      else if spec_drop ByMatchCode cfg body st then Some ByMatchCode
      else if spec_drop ByFilterCode cfg body st then Some ByFilterCode
      else None)"
  by (simp add: classify_spec)

text \<open>
  Claim C1. The classifier evaluates the five checks in the fixed order HTML marker, empty
  after trimming, match substring, match status, exclude status, and stops at the first
  one that drops: a response is dropped by a check exactly when that check's condition
  holds and no earlier condition does, and it is kept exactly when no condition holds.
\<close>

theorem classify_first_failing_predicate:
  "(classify cfg body st = Some d \<longleftrightarrow>
      spec_drop d cfg body st \<and> (\<forall>e \<in> set (earlier d). \<not> spec_drop e cfg body st)) \<and>
   (classify cfg body st = None \<longleftrightarrow> (\<forall>e. \<not> spec_drop e cfg body st))"
proof
  show "classify cfg body st = Some d \<longleftrightarrow>
      spec_drop d cfg body st \<and> (\<forall>e \<in> set (earlier d). \<not> spec_drop e cfg body st)"
    unfolding classify_spec_form by (cases d; simp del: spec_drop.simps)
  show "classify cfg body st = None \<longleftrightarrow> (\<forall>e. \<not> spec_drop e cfg body st)"
    unfolding classify_spec_form all_dropped by (simp del: spec_drop.simps)
qed

text \<open>
  The example of the specification: with both \<open>ignoreHTML\<close> and \<open>ignoreEmpty\<close> set, the
  empty body is dropped by the empty check, not by the HTML check.
\<close>

theorem classify_first_failing_predicate_witness:
  "classify \<lparr>requestBody = [], method' = ''GET'', headers = [], matchString = [],
      matchCode = [], filterCode = [], outputDir = [], ignoreHTMLFiles = True,
      ignoreEmpty = True\<rparr> [] 200 = Some ByEmpty \<and>
   spec_drop ByEmpty \<lparr>requestBody = [], method' = ''GET'', headers = [], matchString = [],
      matchCode = [], filterCode = [], outputDir = [], ignoreHTMLFiles = True,
      ignoreEmpty = True\<rparr> [] 200 \<and>
   \<not> spec_drop ByHTML \<lparr>requestBody = [], method' = ''GET'', headers = [], matchString = [],
      matchCode = [], filterCode = [], outputDir = [], ignoreHTMLFiles = True,
      ignoreEmpty = True\<rparr> [] 200"
proof -
  let ?cfg = "\<lparr>requestBody = [], method' = ''GET'', headers = [], matchString = [],
      matchCode = [], filterCode = [], outputDir = [], ignoreHTMLFiles = True,
      ignoreEmpty = True\<rparr>"
  have "only_white_space []"
    unfolding only_white_space_def by (rule exI [of _ "[]"]) simp
  then have a: "spec_drop ByEmpty ?cfg [] 200" by simp
  have "\<not> isHTML_Match []" by simp
  then have b: "\<not> spec_drop ByHTML ?cfg [] 200"
    unfolding isHTML_Match_iff by simp
  from a b classify_first_failing_predicate [of ?cfg "[]" 200 ByEmpty]
  show ?thesis by simp
qed

lemma classify_without_filterCode:
  "classify cfg body st =
     (case classify (cfg\<lparr>filterCode := []\<rparr>) body st of
        Some d \<Rightarrow> Some d
      | None \<Rightarrow> if filterCode cfg \<noteq> [] \<and> \<not> Includes (filterCode cfg) st
                then Some ByFilterCode else None)"
  by (simp add: classify_def)

text \<open>
  Claim C2. When the exclude-status list is not empty, the fifth check drops a response
  that reaches it if and only if its status is NOT in the list: a status outside the list
  is never kept, a response that every other check lets through is dropped exactly when
  its status is outside the list, and the list decides keep or drop exactly as the same
  list would when given as the match-status list.
\<close>

theorem filterCode_is_allow_list:
  assumes "filterCode cfg \<noteq> []"
  shows "(classify cfg body st = Some ByFilterCode \<longleftrightarrow>
            classify (cfg\<lparr>filterCode := []\<rparr>) body st = None \<and> st \<notin> set (filterCode cfg)) \<and>
         (st \<notin> set (filterCode cfg) \<longrightarrow> classify cfg body st \<noteq> None) \<and>
         (classify (cfg\<lparr>filterCode := []\<rparr>) body st = None \<longrightarrow>
            (classify cfg body st \<noteq> None \<longleftrightarrow> st \<notin> set (filterCode cfg))) \<and>
         (classify (cfg\<lparr>matchCode := [], filterCode := xs\<rparr>) body st = None \<longleftrightarrow>
            classify (cfg\<lparr>matchCode := xs, filterCode := []\<rparr>) body st = None)"
proof (intro conjI)
  show "classify cfg body st = Some ByFilterCode \<longleftrightarrow>
            classify (cfg\<lparr>filterCode := []\<rparr>) body st = None \<and> st \<notin> set (filterCode cfg)"
    using assms
    by (subst classify_without_filterCode) (auto simp: Includes_iff classify_def split: option.splits if_splits)
  show "st \<notin> set (filterCode cfg) \<longrightarrow> classify cfg body st \<noteq> None"
    using assms
    by (subst classify_without_filterCode) (simp add: Includes_iff split: option.splits)
  show "classify (cfg\<lparr>filterCode := []\<rparr>) body st = None \<longrightarrow>
            (classify cfg body st \<noteq> None \<longleftrightarrow> st \<notin> set (filterCode cfg))"
    using assms
    by (subst (2) classify_without_filterCode) (simp add: Includes_iff split: option.splits)
  show "classify (cfg\<lparr>matchCode := [], filterCode := xs\<rparr>) body st = None \<longleftrightarrow>
            classify (cfg\<lparr>matchCode := xs, filterCode := []\<rparr>) body st = None"
    by (simp add: classify_def)
qed

text \<open>With the list 404, 500 a 200 response is dropped and a 404 response is kept.\<close>

theorem filterCode_is_allow_list_witness:
  "filterCode \<lparr>requestBody = [], method' = ''GET'', headers = [], matchString = [],
      matchCode = [], filterCode = [404, 500], outputDir = [], ignoreHTMLFiles = False,
      ignoreEmpty = False\<rparr> \<noteq> [] \<and>
   classify \<lparr>requestBody = [], method' = ''GET'', headers = [], matchString = [],
      matchCode = [], filterCode = [404, 500], outputDir = [], ignoreHTMLFiles = False,
      ignoreEmpty = False\<rparr> ''ok'' 200 = Some ByFilterCode \<and>
   classify \<lparr>requestBody = [], method' = ''GET'', headers = [], matchString = [],
      matchCode = [], filterCode = [404, 500], outputDir = [], ignoreHTMLFiles = False,
      ignoreEmpty = False\<rparr> ''ok'' 404 = None"
proof -
  let ?cfg = "\<lparr>requestBody = [], method' = ''GET'', headers = [], matchString = [],
      matchCode = [], filterCode = [404, 500], outputDir = [], ignoreHTMLFiles = False,
      ignoreEmpty = False\<rparr>"
  have ne: "filterCode ?cfg \<noteq> []" by simp
  have r: "classify (?cfg\<lparr>filterCode := []\<rparr>) ''ok'' st = None" for st
    by (simp add: classify_def)
  from filterCode_is_allow_list [OF ne, of "''ok''" 200 "[]"] r [of 200]
  have a: "classify ?cfg ''ok'' 200 = Some ByFilterCode" by simp
  from filterCode_is_allow_list [OF ne, of "''ok''" 404 "[]"] r [of 404]
  have b: "classify ?cfg ''ok'' 404 = None" by simp
  from ne a b show ?thesis by simp
qed

section \<open>The task and the run: general facts\<close>

lemma promote_idem: "promote (promote cfg) = promote cfg"
  by (simp add: promote_def)

lemma task_promoted: "task e (promote cfg) rawURL = task e cfg rawURL"
  by (simp add: task_def promote_idem)

lemma run_promoted: "run e (promote cfg) ls = run e cfg ls"
proof (induction ls)
  case Nil
  show ?case by simp
next
  case (Cons l ls)
  show ?case by (simp add: task_def promote_idem)
qed

lemma run_Cons: "run e cfg (l # ls) = WgAdd # snd (task e cfg l) @ run e cfg ls"
  by (simp add: task_def run_promoted)

declare run.simps(2) [simp del] run_Cons [simp]

lemma run_append: "run e cfg (xs @ ys) = run e cfg xs @ run e cfg ys"
  by (induction xs) simp_all

lemma wg_counter_append: "wg_counter (xs @ ys) = wg_counter xs + wg_counter ys"
  by (induction xs rule: wg_counter.induct) simp_all

lemma stdout_lines_append: "stdout_lines (xs @ ys) = stdout_lines xs @ stdout_lines ys"
  by (induction xs rule: stdout_lines.induct) simp_all

lemma sent_requests_append: "sent_requests (xs @ ys) = sent_requests xs @ sent_requests ys"
  by (induction xs rule: sent_requests.induct) simp_all

lemma persist_quiet:
  "wg_counter (persist e cfg rawURL u resp body) = 0"
  "sent_requests (persist e cfg rawURL u resp body) = []"
  by (simp_all add: persist_def Let_def split: option.splits)

lemma report_quiet:
  "wg_counter (report e cfg rawURL u resp body) = 0"
  "sent_requests (report e cfg rawURL u resp body) = []"
  by (simp_all add: report_def Let_def persist_quiet split: option.splits)

lemma fetch_wg: "wg_counter (fetch e cfg rawURL) = 0"
  by (simp add: fetch_def Let_def report_quiet split: option.splits sum.splits)

lemma task_wg: "wg_counter (snd (task e cfg rawURL)) = - 1"
  by (simp add: task_def wg_counter_append fetch_wg)

lemma run_wg: "wg_counter (run e cfg ls) = 0"
  by (induction ls) (simp_all add: wg_counter_append task_wg)

section \<open>The request that is sent\<close>

lemma sent_requests_fetch:
  "sent_requests (fetch e cfg rawURL) =
     (case url_ParseRequestURI e rawURL of
        Some err \<Rightarrow> []
      | None \<Rightarrow> (case http_NewRequest e (method' cfg) rawURL of
                   Inl err \<Rightarrow> []
                 | Inr u \<Rightarrow> [buildRequest cfg rawURL u]))"
  by (simp add: fetch_def Let_def report_quiet split: option.splits sum.splits)

lemma sent_requests_task:
  "sent_requests (snd (task e cfg rawURL)) = sent_requests (fetch e (promote cfg) rawURL)"
  by (simp add: task_def sent_requests_append)



text \<open>
  Claim C4 as it is worded does not hold for every method other than the default: with
  \<open>-m ""\<close> and a body the method is not \<open>GET\<close>, so it is not promoted, and the request
  goes out with the method \<open>GET\<close>, not with the empty method that was chosen.
\<close>

theorem method_promotion_empty_method_counterexample:
  "method' (default_config\<lparr>requestBody := ''x=1'', method' := []\<rparr>) = [] \<and>
   requestBody (default_config\<lparr>requestBody := ''x=1'', method' := []\<rparr>) = ''x=1'' \<and>
   map Method (sent_requests (snd (task (example_env (Inl ''timeout'') None)
      (default_config\<lparr>requestBody := ''x=1'', method' := []\<rparr>) ''http://example.test/a'')))
     = [''GET'']"
  unfolding sent_requests_task sent_requests_fetch
  by (simp add: example_env_def default_config_def promote_def buildRequest_def
      requestMethod_def)

section \<open>The header of the request\<close>

text \<open>
  A value of \<open>-H\<close> is well formed when it has a colon; its name is the text before the
  first colon and its value the text after it.
\<close>

definition wellFormed :: "string \<Rightarrow> bool" where
  "wellFormed h \<longleftrightarrow> CHR '':'' \<in> set h"

definition header_name :: "string \<Rightarrow> string" where
  "header_name h = takeWhile (\<lambda>c. c \<noteq> CHR '':'') h"

definition header_value :: "string \<Rightarrow> string" where
  "header_value h = drop 1 (dropWhile (\<lambda>c. c \<noteq> CHR '':'') h)"

text \<open>The well-formed entries of a list whose name is, in canonical form, \<open>key\<close>.\<close>

definition entries_for :: "string \<Rightarrow> headerArgs \<Rightarrow> headerArgs" where
  "entries_for key hs =
     filter (\<lambda>h. wellFormed h \<and> CanonicalMIMEHeaderKey (header_name h) = key) hs"

lemma addHeaders_Cons:
  "addHeaders (h # hs) hdr =
     (if wellFormed h then addHeaders hs (Header_Set hdr (header_name h) (header_value h))
      else addHeaders hs hdr)"
  by (simp add: SplitN2_def wellFormed_def header_name_def header_value_def)

declare addHeaders.simps(2) [simp del]

lemma addHeaders_lookup:
  "addHeaders hs hdr key =
     (case entries_for key hs of [] \<Rightarrow> hdr key | e # es \<Rightarrow> Some [header_value (last (e # es))])"
proof (induction hs arbitrary: hdr)
  case Nil
  show ?case by (simp add: entries_for_def)
next
  case (Cons h hs)
  show ?case
  proof (cases "wellFormed h \<and> CanonicalMIMEHeaderKey (header_name h) = key")
    case True
    then have e: "entries_for key (h # hs) = h # entries_for key hs"
      by (simp add: entries_for_def)
    from True have "addHeaders (h # hs) hdr key =
        addHeaders hs (Header_Set hdr (header_name h) (header_value h)) key"
      by (simp add: addHeaders_Cons)
    also have "\<dots> = (case entries_for key hs of
        [] \<Rightarrow> Some [header_value h] | e # es \<Rightarrow> Some [header_value (last (e # es))])"
      using True by (simp add: Cons.IH Header_Set_def split: list.splits)
    also have "\<dots> = Some [header_value (last (h # entries_for key hs))]"
      by (cases "entries_for key hs") simp_all
    finally show ?thesis by (simp add: e)
  next
    case False
    then have e: "entries_for key (h # hs) = entries_for key hs"
      by (auto simp: entries_for_def)
    have "addHeaders (h # hs) hdr key = (case entries_for key hs of
        [] \<Rightarrow> hdr key | e # es \<Rightarrow> Some [header_value (last (e # es))])"
    proof (cases "wellFormed h")
      case True
      with False have "CanonicalMIMEHeaderKey (header_name h) \<noteq> key" by simp
      with True show ?thesis
        by (simp add: addHeaders_Cons Cons.IH Header_Set_def split: list.splits)
    next
      case False
      then show ?thesis by (simp add: addHeaders_Cons Cons.IH)
    qed
    then show ?thesis by (simp add: e)
  qed
qed

lemma headerArgs_Set_all: "foldl headerArgs_Set hs vals = hs @ vals"
  by (induction vals arbitrary: hs) (simp_all add: headerArgs_Set_def)

lemma headers_promote: "headers (promote cfg) = headers cfg"
  by (simp add: promote_def)

lemma sent_request_is_built:
  assumes "req \<in> set (sent_requests (snd (task e cfg rawURL)))"
  shows "\<exists>u. req = buildRequest (promote cfg) rawURL u"
  using assms unfolding sent_requests_task sent_requests_fetch
  by (auto split: option.splits sum.splits)

text \<open>
  Claim C9. In the header of the request that is sent, a name holds one value only: the
  value of the last well-formed \<open>-H\<close> entry with that name (names are compared in their
  canonical form); earlier values are replaced, and a name no well-formed entry gives is
  absent. The configured list keeps every entry, in the order given.
  (What \<open>net/http\<close> then writes on the wire from this header is not modelled.)
\<close>

theorem last_header_wins:
  assumes "req \<in> set (sent_requests (snd (task e cfg rawURL)))"
  shows "ReqHeader req key =
           (case entries_for key (headers cfg) of
              [] \<Rightarrow> None
            | h # hs \<Rightarrow> Some [header_value (last (h # hs))]) \<and>
         headers (fst (task e cfg rawURL)) = headers cfg \<and>
         foldl headerArgs_Set [] vals = vals"
proof -
  from sent_request_is_built [OF assms]
  obtain u where "req = buildRequest (promote cfg) rawURL u" ..
  then have "ReqHeader req key = addHeaders (headers cfg) Map.empty key"
    by (simp add: buildRequest_def headers_promote)
  then show ?thesis
    by (simp add: addHeaders_lookup headerArgs_Set_all task_def headers_promote)
qed

text \<open>Two entries for \<open>X-Token\<close>, one for \<open>Accept\<close>, and one without a colon.\<close>

theorem last_header_wins_witness:
  "map (\<lambda>req. (ReqHeader req ''X-Token'', ReqHeader req ''Accept'', ReqHeader req ''Junk''))
     (sent_requests (snd (task (example_env (Inl ''timeout'') None)
        (default_config\<lparr>headers := [''X-Token: a'', ''Accept:text/html'', ''junk'', ''x-token: b'']\<rparr>)
        ''http://example.test/a''))) =
   [(Some ['' b''], Some [''text/html''], None)]"
proof -
  let ?hs = "[''X-Token: a'', ''Accept:text/html'', ''junk'', ''x-token: b'']"
  let ?cfg = "default_config\<lparr>headers := ?hs\<rparr>"
  let ?e = "example_env (Inl ''timeout'') None"
  let ?req = "buildRequest (promote ?cfg) ''http://example.test/a'' example_url"
  have s: "sent_requests (snd (task ?e ?cfg ''http://example.test/a'')) = [?req]"
    unfolding sent_requests_task sent_requests_fetch
    by (simp add: example_env_def default_config_def promote_def)
  then have m: "?req \<in> set (sent_requests (snd (task ?e ?cfg ''http://example.test/a'')))"
    by simp
  have c: "CanonicalMIMEHeaderKey ''X-Token'' = ''X-Token''"
    "CanonicalMIMEHeaderKey ''x-token'' = ''X-Token''"
    "CanonicalMIMEHeaderKey ''Accept'' = ''Accept''"
    by (simp_all add: CanonicalMIMEHeaderKey_def validHeaderFieldByte_def upperASCII_def
        lowerASCII_def Let_def)
  have n: "map header_name ?hs = [''X-Token'', ''Accept'', ''junk'', ''x-token'']"
    "map header_value ?hs = ['' a'', ''text/html'', [], '' b'']"
    "map wellFormed ?hs = [True, True, False, True]"
    by (simp_all add: header_name_def header_value_def wellFormed_def)
  have h: "headers ?cfg = ?hs"
    by simp
  have e: "entries_for ''X-Token'' ?hs = [''X-Token: a'', ''x-token: b'']"
    "entries_for ''Accept'' ?hs = [''Accept:text/html'']"
    "entries_for ''Junk'' ?hs = []"
    using n c by (simp_all add: entries_for_def)
  from last_header_wins [OF m, of "''X-Token''" "[]", THEN conjunct1]
    last_header_wins [OF m, of "''Accept''" "[]", THEN conjunct1]
    last_header_wins [OF m, of "''Junk''" "[]", THEN conjunct1]
  have "ReqHeader ?req ''X-Token'' = Some ['' b'']" "ReqHeader ?req ''Accept'' = Some [''text/html'']"
    "ReqHeader ?req ''Junk'' = None"
    unfolding h e using n(2) by simp_all
  with s show ?thesis by simp
qed

section \<open>What a task prints\<close>

lemma run_insert:
  "run e cfg (ls1 @ rawURL # ls2) =
     run e cfg ls1 @ WgAdd # snd (task e cfg rawURL) @ run e cfg ls2"
  by (simp add: run_append)

lemma classify_promote: "classify (promote cfg) body st = classify cfg body st"
  by (simp add: classify_def promote_def)

lemma outputDir_promote: "outputDir (promote cfg) = outputDir cfg"
  by (simp add: promote_def)

text \<open>
  Claim C6. A task whose line does not parse as a request URI does nothing but release
  the wait group: it prints nothing, writes nothing and sends nothing. The output of a
  run is what it would be without that line, and the wait group is back at zero after
  the run, so that the final \<open>wg.Wait()\<close> returns.
\<close>

theorem malformed_line_is_silent:
  assumes "url_ParseRequestURI e rawURL = Some err"
  shows "snd (task e cfg rawURL) = [WgDone] \<and>
         filter is_output (run e cfg (ls1 @ rawURL # ls2)) = filter is_output (run e cfg (ls1 @ ls2)) \<and>
         wg_counter (run e cfg (ls1 @ rawURL # ls2)) = 0"
proof -
  from assms have t: "snd (task e cfg rawURL) = [WgDone]"
    by (simp add: task_def fetch_def)
  then have "filter is_output (run e cfg (ls1 @ rawURL # ls2)) = filter is_output (run e cfg (ls1 @ ls2))"
    by (simp add: run_insert run_append)
  with t show ?thesis
    by (simp add: run_wg)
qed

text \<open>The line \<open>not-a-url\<close> between two good lines.\<close>

theorem malformed_line_is_silent_witness:
  "snd (task (example_env (Inl ''timeout'') None) default_config ''not-a-url'') = [WgDone] \<and>
   filter is_output (run (example_env (Inl ''timeout'') None) default_config
      [''http://example.test/a'', ''not-a-url'', ''http://example.test/b'']) =
   filter is_output (run (example_env (Inl ''timeout'') None) default_config
      [''http://example.test/a'', ''http://example.test/b''])"
proof -
  have "url_ParseRequestURI (example_env (Inl ''timeout'') None) ''not-a-url''
      = Some ''invalid URI for request''"
    by (simp add: example_env_def)
  from malformed_line_is_silent [OF this, of default_config "[''http://example.test/a'']"
      "[''http://example.test/b'']"]
  show ?thesis by simp
qed

text \<open>The error that makes the task give up after the line has parsed, if there is one.\<close>

definition task_error :: "env \<Rightarrow> config \<Rightarrow> string \<Rightarrow> string option" where
  "task_error e cfg rawURL =
     (case http_NewRequest e (method' (promote cfg)) rawURL of
        Inl err \<Rightarrow> Some err
      | Inr u \<Rightarrow>
          (case client_Do e (buildRequest (promote cfg) rawURL u) of
             Inl err \<Rightarrow> Some err
           | Inr resp \<Rightarrow> (case Body resp of Inl err \<Rightarrow> Some err | Inr responseBody \<Rightarrow> None)))"

lemma fmt_d_0: "fmt_d 0 = ''0''"
  by (simp add: fmt_d_def decimal.simps digit_def)

lemma fmt_d_1: "fmt_d 1 = ''1''"
  by (simp add: fmt_d_def decimal.simps digit_def)

lemma errorLine_text:
  "errorLine rawURL err =
     rawURL @ '','' @ err @ '',status: 0,size: 0,words: 0,lines: 0,type: error'' @ [LF]"
  by (simp add: errorLine_def stdoutFormat_def fmt_d_0)

lemma task_error_output:
  assumes "url_ParseRequestURI e rawURL = None" "task_error e cfg rawURL = Some err"
  shows "filter is_output (snd (task e cfg rawURL)) = [Stdout (errorLine rawURL err)]"
  using assms
  by (auto simp: task_def fetch_def task_error_def Let_def split: sum.splits)

text \<open>
  Claim C7. A task that fails when the request is made, when it is sent, or when the
  body is read, prints exactly one line on standard output and touches no other channel.
  The line is in the summary format with status 0, size 0, words 0, lines 0, type
  \<open>error\<close>, and the error message where the redirect location would be. The tasks before
  and after it in the run do what they do without it, and the wait group is back at zero
  after the run.
\<close>

theorem failure_prints_error_line:
  assumes "url_ParseRequestURI e rawURL = None" "task_error e cfg rawURL = Some err"
  shows "filter is_output (snd (task e cfg rawURL)) = [Stdout (errorLine rawURL err)] \<and>
         errorLine rawURL err =
           rawURL @ '','' @ err @ '',status: 0,size: 0,words: 0,lines: 0,type: error'' @ [LF] \<and>
         filter is_output (run e cfg (ls1 @ rawURL # ls2)) =
           filter is_output (run e cfg ls1) @ [Stdout (errorLine rawURL err)] @
           filter is_output (run e cfg ls2) \<and>
         wg_counter (run e cfg (ls1 @ rawURL # ls2)) = 0"
proof -
  note t = task_error_output [OF assms]
  then have "filter is_output (run e cfg (ls1 @ rawURL # ls2)) =
           filter is_output (run e cfg ls1) @ [Stdout (errorLine rawURL err)] @
           filter is_output (run e cfg ls2)"
    by (simp add: run_insert)
  with t show ?thesis
    by (simp add: run_wg errorLine_text)
qed

text \<open>A network error, a refused method, and a body that cannot be read.\<close>

theorem failure_prints_error_line_witness:
  "filter is_output (snd (task (example_env (Inl ''timeout'') None) default_config
      ''http://example.test/a'')) =
     [Stdout (''http://example.test/a,timeout,status: 0,size: 0,words: 0,lines: 0,type: error''
        @ [LF])] \<and>
   filter is_output (snd (task (example_env (Inl ''timeout'') None)
      (default_config\<lparr>method' := ''BAD METHOD''\<rparr>) ''http://example.test/a'')) =
     [Stdout (''http://example.test/a,net/http: invalid method,status: 0,size: 0,words: 0,lines: 0,type: error''
        @ [LF])] \<and>
   filter is_output (snd (task (example_env (Inr (example_response 200 (Inl ''unexpected EOF''))) None)
      default_config ''http://example.test/a'')) =
     [Stdout (''http://example.test/a,unexpected EOF,status: 0,size: 0,words: 0,lines: 0,type: error''
        @ [LF])]"
proof -
  let ?l = "''http://example.test/a''"
  let ?e1 = "example_env (Inl ''timeout'') None"
  let ?e3 = "example_env (Inr (example_response 200 (Inl ''unexpected EOF''))) None"
  let ?c2 = "default_config\<lparr>method' := ''BAD METHOD''\<rparr>"
  have p1: "url_ParseRequestURI ?e1 ?l = None" and p3: "url_ParseRequestURI ?e3 ?l = None"
    by (simp_all add: example_env_def)
  have t1: "task_error ?e1 default_config ?l = Some ''timeout''"
    by (simp add: task_error_def example_env_def default_config_def promote_def)
  have t2: "task_error ?e1 ?c2 ?l = Some ''net/http: invalid method''"
    by (simp add: task_error_def example_env_def default_config_def promote_def)
  have t3: "task_error ?e3 default_config ?l = Some ''unexpected EOF''"
    by (simp add: task_error_def example_env_def default_config_def promote_def
        example_response_def)
  from failure_prints_error_line [OF p1 t1, of "[]" "[]"]
    failure_prints_error_line [OF p1 t2, of "[]" "[]"]
    failure_prints_error_line [OF p3 t3, of "[]" "[]"]
  show ?thesis by simp
qed

text \<open>
  The response of the task reaches the classifier: the line parses, the request is made
  and answered, and the body is read.
\<close>

definition reaches_classifier ::
  "env \<Rightarrow> config \<Rightarrow> string \<Rightarrow> url \<Rightarrow> response \<Rightarrow> string \<Rightarrow> bool" where
  "reaches_classifier e cfg rawURL u resp responseBody \<longleftrightarrow>
     url_ParseRequestURI e rawURL = None \<and>
     http_NewRequest e (method' (promote cfg)) rawURL = Inr u \<and>
     client_Do e (buildRequest (promote cfg) rawURL u) = Inr resp \<and>
     Body resp = Inr responseBody"

lemma task_reaches:
  assumes "reaches_classifier e cfg rawURL u resp body"
  shows "snd (task e cfg rawURL) =
     Sent (buildRequest (promote cfg) rawURL u) #
     report e (promote cfg) rawURL u resp body @ [WgDone]"
  using assms by (simp add: reaches_classifier_def task_def fetch_def)

lemma report_summary:
  assumes "outputDir cfg = []"
  shows "report e cfg rawURL u resp body =
     (if classify cfg body (StatusCode resp) = None
      then [Stdout (stdoutFormat rawURL (Header_Get (Header resp) ''Location'')
              (StatusCode resp) (int (length body)) (int (length (Split body (CHR '' ''))))
              (int (length (Split body LF))) (Header_Get (Header resp) ''Content-Type''))]
      else [])"
  using assms by (auto simp: report_def Let_def split: option.splits)

lemma Split_nonempty: "Split s sep \<noteq> []"
  by (induction s) (auto split: list.splits)

lemma Split_length: "length (Split s sep) = count_list s sep + 1"
proof (induction s)
  case Nil
  show ?case by simp
next
  case (Cons c cs)
  then show ?case
    using Split_nonempty [of cs sep] by (cases "Split cs sep") auto
qed

lemma Split_Join: "Join (Split s sep) [sep] = s"
proof (induction s)
  case Nil
  show ?case by simp
next
  case (Cons c cs)
  obtain f fs where f: "Split cs sep = f # fs"
    using Split_nonempty [of cs sep] by (cases "Split cs sep") auto
  with Cons show ?case
    by (cases fs) auto
qed

lemma Split_no_sep: "f \<in> set (Split s sep) \<Longrightarrow> sep \<notin> set f"
proof (induction s arbitrary: f)
  case Nil
  then show ?case by simp
next
  case (Cons c cs)
  obtain g gs where g: "Split cs sep = g # gs"
    using Split_nonempty [of cs sep] by (cases "Split cs sep") auto
  with Cons.prems Cons.IH [of g] Cons.IH [of f] show ?case
    by (auto split: if_splits)
qed

text \<open>
  Claim C5, as amended. In summary mode (no output directory), a task whose response
  reaches the classifier and is KEPT by it prints exactly one line, with the fields url,
  \<open>Location\<close> header or empty, status code, length of the body in bytes, number of words,
  number of lines, and \<open>Content-Type\<close> header; a task whose response is dropped prints
  nothing. The number of words is the number of fragments between the spaces of the body
  (one more than it has spaces) and the number of lines is the number of fragments between
  its line feeds.
\<close>

theorem summary_mode_output:
  assumes "reaches_classifier e cfg rawURL u resp body" "outputDir cfg = []"
  shows "filter is_output (snd (task e cfg rawURL)) =
           (if classify cfg body (StatusCode resp) = None
            then [Stdout (stdoutFormat rawURL (Header_Get (Header resp) ''Location'')
                    (StatusCode resp) (int (length body)) (int (length (Split body (CHR '' ''))))
                    (int (length (Split body LF))) (Header_Get (Header resp) ''Content-Type''))]
            else []) \<and>
         length (Split body (CHR '' '')) = count_list body (CHR '' '') + 1 \<and>
         length (Split body LF) = count_list body LF + 1 \<and>
         Join (Split body (CHR '' '')) '' '' = body \<and> Join (Split body LF) [LF] = body"
proof -
  from assms(2) have "outputDir (promote cfg) = []"
    by (simp add: outputDir_promote)
  from report_summary [OF this] task_reaches [OF assms(1)]
  have "filter is_output (snd (task e cfg rawURL)) =
           (if classify cfg body (StatusCode resp) = None
            then [Stdout (stdoutFormat rawURL (Header_Get (Header resp) ''Location'')
                    (StatusCode resp) (int (length body)) (int (length (Split body (CHR '' ''))))
                    (int (length (Split body LF))) (Header_Get (Header resp) ''Content-Type''))]
            else [])"
    by (simp add: classify_promote)
  then show ?thesis
    using Split_Join [of body "CHR '' ''"] by (simp add: Split_length Split_Join)
qed

subsection \<open>The examples\<close>

lemma example_reaches:
  "reaches_classifier (example_env (Inr (example_response code (Inr body))) disk)
     (default_config\<lparr>matchCode := mc\<rparr>) ''http://example.test/a'' example_url
     (example_response code (Inr body)) body"
  by (simp add: reaches_classifier_def example_env_def example_response_def
      default_config_def promote_def)

lemma example_response_sel:
  "StatusCode (example_response code body) = code"
  "Body (example_response code body) = body"
  by (simp_all add: example_response_def)

lemma example_header_get:
  "Header_Get (Header (example_response code body)) ''Location'' = []"
  "Header_Get (Header (example_response code body)) ''Content-Type'' = ''text/plain''"
  by (simp_all add: example_response_def ReadMIMEHeader_def Header_Add_def Header_Get_def
      CanonicalMIMEHeaderKey_def validHeaderFieldByte_def upperASCII_def lowerASCII_def)

text \<open>A body of 15 bytes with one space and one line feed, status 200, no filter.\<close>

theorem summary_mode_output_witness:
  "filter is_output (snd (task
      (example_env (Inr (example_response 200 (Inr (''hello world'' @ [LF] @ ''bye'')))) None)
      (default_config\<lparr>matchCode := []\<rparr>) ''http://example.test/a'')) =
     [Stdout (''http://example.test/a,,status: 200,size: 15,words: 2,lines: 2,type: text/plain''
        @ [LF])]"
proof -
  let ?body = "''hello world'' @ [LF] @ ''bye''"
  have o: "outputDir (default_config\<lparr>matchCode := []\<rparr>) = []"
    by (simp add: default_config_def)
  have k: "classify (default_config\<lparr>matchCode := []\<rparr>) ?body 200 = None"
    by (simp add: classify_def default_config_def)
  have f: "fmt_d 200 = ''200''" "fmt_d 15 = ''15''" "fmt_d 2 = ''2''"
    by (simp_all add: fmt_d_def decimal.simps digit_def)
  have s: "length (Split ?body (CHR '' '')) = 2" "length (Split ?body LF) = 2"
    by (simp_all add: LF_def)
  note summary_mode_output [OF example_reaches [of 200 ?body None "[]"] o, THEN conjunct1]
  then show ?thesis
    unfolding example_response_sel k s
    by (simp add: stdoutFormat_def example_header_get f)
qed

text \<open>
  Claim C5 as it is worded does not hold: with \<open>-mc 200,201\<close> and no output directory, a
  404 response reaches the classifier, is dropped by it, and no line is printed.
\<close>

theorem summary_mode_dropped_counterexample:
  "reaches_classifier (example_env (Inr (example_response 404 (Inr ''not found''))) None)
     (default_config\<lparr>matchCode := [200, 201]\<rparr>) ''http://example.test/a'' example_url
     (example_response 404 (Inr ''not found'')) ''not found'' \<and>
   outputDir (default_config\<lparr>matchCode := [200, 201]\<rparr>) = [] \<and>
   stdout_lines (snd (task (example_env (Inr (example_response 404 (Inr ''not found''))) None)
     (default_config\<lparr>matchCode := [200, 201]\<rparr>) ''http://example.test/a'')) = []"
proof -
  let ?cfg = "default_config\<lparr>matchCode := [200, 201]\<rparr>"
  have k: "classify (promote ?cfg) ''not found'' 404 = Some ByMatchCode"
    by (simp add: classify_def default_config_def promote_def)
  have "report e (promote ?cfg) l u (example_response 404 b) ''not found'' = []" for e l u b
    by (simp add: report_def k example_response_sel)
  with task_reaches [OF example_reaches [of 404 "''not found''" None "[200, 201]"]]
  have "stdout_lines (snd (task (example_env (Inr (example_response 404 (Inr ''not found''))) None)
     ?cfg ''http://example.test/a'')) = []"
    by simp
  with example_reaches [of 404 "''not found''" None "[200, 201]"] show ?thesis
    by (simp add: default_config_def)
qed

text \<open>
  Claim C10. In summary mode, a kept response with a body of length zero is reported with
  size 0, words 1 and lines 1: splitting the empty body gives one empty fragment.
\<close>

theorem empty_body_counts:
  assumes "reaches_classifier e cfg rawURL u resp []"
    and "classify cfg [] (StatusCode resp) = None"
    and "outputDir cfg = []"
  shows "filter is_output (snd (task e cfg rawURL)) =
           [Stdout (rawURL @ '','' @ Header_Get (Header resp) ''Location'' @ '',status: '' @
              fmt_d (StatusCode resp) @ '',size: 0,words: 1,lines: 1,type: '' @
              Header_Get (Header resp) ''Content-Type'' @ [LF])] \<and>
         Split [] (CHR '' '') = [[]] \<and> Split [] LF = [[]]"
proof -
  from assms(3) have "outputDir (promote cfg) = []"
    by (simp add: outputDir_promote)
  from report_summary [OF this] task_reaches [OF assms(1)] assms(2)
  show ?thesis
    by (simp add: classify_promote stdoutFormat_def fmt_d_0 fmt_d_1)
qed

text \<open>A 204 response with no body.\<close>

theorem empty_body_counts_witness:
  "filter is_output (snd (task (example_env (Inr (example_response 204 (Inr []))) None)
      (default_config\<lparr>matchCode := []\<rparr>) ''http://example.test/a'')) =
     [Stdout (''http://example.test/a,,status: 204,size: 0,words: 1,lines: 1,type: text/plain''
        @ [LF])]"
proof -
  have o: "outputDir (default_config\<lparr>matchCode := []\<rparr>) = []"
    by (simp add: default_config_def)
  have k: "classify (default_config\<lparr>matchCode := []\<rparr>) []
      (StatusCode (example_response 204 (Inr []))) = None"
    by (simp add: classify_def default_config_def example_response_sel)
  have f: "fmt_d 204 = ''204''"
    by (simp add: fmt_d_def decimal.simps digit_def)
  note empty_body_counts [OF example_reaches [of 204 "[]" None "[]"] k o, THEN conjunct1]
  then show ?thesis
    unfolding example_response_sel
    by (simp add: example_header_get f)
qed

section \<open>The transcript of a kept response\<close>

text \<open>
  The response header as a list of lines: for each name in the order given, the name
  with each of its values, and the text of one line.
\<close>

definition header_values :: "header \<Rightarrow> string \<Rightarrow> string list" where
  "header_values h k = (case h k of None \<Rightarrow> [] | Some vs \<Rightarrow> vs)"

definition header_entries :: "header \<Rightarrow> string list \<Rightarrow> (string \<times> string) list" where
  "header_entries h ks = concat (map (\<lambda>k. map (Pair k) (header_values h k)) ks)"

definition headerLine :: "string \<times> string \<Rightarrow> string" where
  "headerLine kv = ''< '' @ fst kv @ '': '' @ snd kv @ [LF]"

text \<open>The part of the transcript that comes before the response (lines 243 to 255).\<close>

definition requestPart :: "config \<Rightarrow> string \<Rightarrow> string" where
  "requestPart cfg rawURL =
     method' cfg @ '' '' @ rawURL @ [LF, LF] @
     concat (map (\<lambda>h. ''> '' @ h @ [LF]) (headers cfg)) @ [LF] @
     (if requestBody cfg \<noteq> [] then requestBody cfg @ [LF, LF] else [])"

text \<open>The file system never fails.\<close>

definition disk_ok :: "env \<Rightarrow> bool" where
  "disk_ok e \<longleftrightarrow>
     (\<forall>dir. os_MkdirAll e dir = None) \<and> (\<forall>p content. ioutil_WriteFile e p content = None) \<and>
     (\<forall>p. os_Create e p = None)"

text \<open>The texts copied to files, with the names of the files.\<close>

fun copied :: "event list \<Rightarrow> (string \<times> string) list" where
  "copied [] = []"
| "copied (Copy p content # evs) = (p, content) # copied evs"
| "copied (ev # evs) = copied evs"

lemma copied_append: "copied (xs @ ys) = copied xs @ copied ys"
  by (induction xs rule: copied.induct) simp_all

lemma responseHeaderLines_entries:
  "responseHeaderLines h ks = map headerLine (header_entries h ks)"
  by (simp add: responseHeaderLines_def header_entries_def header_values_def headerLine_def
      map_concat comp_def)

lemma transcript_parts:
  "transcript e cfg rawURL resp =
     requestPart cfg rawURL @ ''< '' @ Proto resp @ '' '' @ Status resp @ [LF] @
     concat (map headerLine (header_entries (Header resp) (map_range e (Header resp))))"
  by (simp add: transcript_def requestPart_def responseHeaderLines_entries)

lemma entries_of_name:
  assumes "distinct ks"
  shows "map snd (filter (\<lambda>kv. fst kv = k) (header_entries h ks)) =
     (if k \<in> set ks then header_values h k else [])"
  using assms
proof (induction ks)
  case Nil
  show ?case by (simp add: header_entries_def)
next
  case (Cons a ks)
  have split: "header_entries h (a # ks) = map (Pair a) (header_values h a) @ header_entries h ks"
    by (simp add: header_entries_def)
  have own: "map snd (filter (\<lambda>kv. fst kv = k) (map (Pair a) vs)) = (if a = k then vs else [])"
    for vs :: "string list"
    by (induction vs) auto
  from Cons show ?case
    by (auto simp: split own)
qed

lemma entries_of_name_dom:
  assumes "distinct ks" "set ks = dom h"
  shows "map snd (filter (\<lambda>kv. fst kv = k) (header_entries h ks)) = header_values h k"
proof (cases "k \<in> set ks")
  case True
  with assms(1) show ?thesis by (simp add: entries_of_name)
next
  case False
  with assms(2) have "h k = None" by (auto simp: dom_def)
  with False assms(1) show ?thesis by (simp add: entries_of_name header_values_def)
qed

lemma header_values_foldl:
  "header_values (foldl Header_Add h wire) k =
     header_values h k @ map snd (filter (\<lambda>nv. CanonicalMIMEHeaderKey (fst nv) = k) wire)"
proof (induction wire arbitrary: h)
  case Nil
  show ?case by simp
next
  case (Cons nv wire)
  have "header_values (Header_Add h nv) k =
      header_values h k @ (if CanonicalMIMEHeaderKey (fst nv) = k then [snd nv] else [])"
    by (simp add: Header_Add_def header_values_def Let_def)
  then show ?case
    by (simp add: Cons.IH)
qed

lemma header_values_ReadMIMEHeader:
  "header_values (ReadMIMEHeader wire) k =
     map snd (filter (\<lambda>nv. CanonicalMIMEHeaderKey (fst nv) = k) wire)"
  by (simp add: ReadMIMEHeader_def header_values_foldl) (simp add: header_values_def)

lemma copied_persist:
  assumes "disk_ok e"
  shows "copied (persist e cfg rawURL u resp body) =
     [(artifactPath (if outputDir cfg = [] then ''out'' else outputDir cfg) cfg rawURL u ''.headers'',
       transcript e cfg rawURL resp)]"
  using assms by (simp add: persist_def disk_ok_def Let_def split: option.splits)

lemma copied_task_kept:
  assumes "reaches_classifier e cfg rawURL u resp body"
    and "classify cfg body (StatusCode resp) = None"
    and "outputDir cfg \<noteq> []"
    and "disk_ok e"
  shows "copied (snd (task e cfg rawURL)) =
     [(artifactPath (outputDir cfg) (promote cfg) rawURL u ''.headers'',
       transcript e (promote cfg) rawURL resp)]"
proof -
  from assms(2,3) have "report e (promote cfg) rawURL u resp body =
      persist e (promote cfg) rawURL u resp body"
    by (simp add: report_def classify_promote outputDir_promote)
  with task_reaches [OF assms(1)] copied_persist [OF assms(4)] assms(3)
  show ?thesis
    by (simp add: copied_append outputDir_promote)
qed

text \<open>
  Claim C8, as amended. For a kept response in artifact mode (with a file system that
  works), the text copied to the \<open>.headers\<close> file ends with the status line
  \<open>< PROTO STATUS\<close> followed by the response header lines \<open>< name: value\<close>. The names
  come in the order in which \<open>range\<close> visits the map, which Go leaves unspecified;
  under each name, its values come once each, in their original order (the order of
  \<open>resp.Header[name]\<close>, which for a header read from the wire is the order of arrival).
\<close>

theorem transcript_response_headers:
  assumes "reaches_classifier e cfg rawURL u resp body"
    and "classify cfg body (StatusCode resp) = None"
    and "outputDir cfg \<noteq> []"
    and "disk_ok e"
    and "distinct (map_range e (Header resp))"
    and "set (map_range e (Header resp)) = dom (Header resp)"
  shows "copied (snd (task e cfg rawURL)) =
           [(artifactPath (outputDir cfg) (promote cfg) rawURL u ''.headers'',
             requestPart (promote cfg) rawURL @
             ''< '' @ Proto resp @ '' '' @ Status resp @ [LF] @
             concat (map headerLine
               (header_entries (Header resp) (map_range e (Header resp)))))] \<and>
         map snd (filter (\<lambda>kv. fst kv = name)
             (header_entries (Header resp) (map_range e (Header resp)))) =
           header_values (Header resp) name \<and>
         (Header resp = ReadMIMEHeader wire \<longrightarrow>
            map snd (filter (\<lambda>kv. fst kv = name)
              (header_entries (Header resp) (map_range e (Header resp)))) =
            map snd (filter (\<lambda>nv. CanonicalMIMEHeaderKey (fst nv) = name) wire))"
proof (intro conjI impI)
  show "copied (snd (task e cfg rawURL)) =
           [(artifactPath (outputDir cfg) (promote cfg) rawURL u ''.headers'',
             requestPart (promote cfg) rawURL @
             ''< '' @ Proto resp @ '' '' @ Status resp @ [LF] @
             concat (map headerLine
               (header_entries (Header resp) (map_range e (Header resp)))))]"
    using copied_task_kept [OF assms(1-4)] by (simp add: transcript_parts)
  show n: "map snd (filter (\<lambda>kv. fst kv = name)
             (header_entries (Header resp) (map_range e (Header resp)))) =
           header_values (Header resp) name"
    using assms(5,6) by (rule entries_of_name_dom)
  show "map snd (filter (\<lambda>kv. fst kv = name)
              (header_entries (Header resp) (map_range e (Header resp)))) =
            map snd (filter (\<lambda>nv. CanonicalMIMEHeaderKey (fst nv) = name) wire)"
    if "Header resp = ReadMIMEHeader wire"
    using n that by (simp add: header_values_ReadMIMEHeader)
qed

subsection \<open>The example\<close>

lemma dom_foldl_Header_Add:
  "dom (foldl Header_Add h wire) = dom h \<union> CanonicalMIMEHeaderKey ` fst ` set wire"
  by (induction wire arbitrary: h) (auto simp: Header_Add_def Let_def)

lemma dom_ReadMIMEHeader:
  "dom (ReadMIMEHeader wire) = CanonicalMIMEHeaderKey ` fst ` set wire"
  by (simp add: ReadMIMEHeader_def dom_foldl_Header_Add)

lemma example_canonical:
  "CanonicalMIMEHeaderKey ''content-type'' = ''Content-Type''"
  "CanonicalMIMEHeaderKey ''Set-Cookie'' = ''Set-Cookie''"
  by (simp_all add: CanonicalMIMEHeaderKey_def validHeaderFieldByte_def upperASCII_def
      lowerASCII_def Let_def)

lemma example_header:
  "dom (Header (example_response code body)) = {''Content-Type'', ''Set-Cookie''}"
  "header_values (Header (example_response code body)) ''Set-Cookie'' = [''a=1'', ''b=2'']"
  "header_values (Header (example_response code body)) ''Content-Type'' = [''text/plain'']"
  by (simp_all add: example_response_def dom_ReadMIMEHeader header_values_ReadMIMEHeader
      example_canonical)

lemma example_entries:
  "header_entries (Header (example_response code body)) [''Set-Cookie'', ''Content-Type''] =
     [(''Set-Cookie'', ''a=1''), (''Set-Cookie'', ''b=2''), (''Content-Type'', ''text/plain'')]"
  by (simp add: header_entries_def example_header)

lemma example_artifact_reaches:
  "reaches_classifier (example_env (Inr (example_response code (Inr body))) disk)
     (default_config\<lparr>outputDir := dir\<rparr>) ''http://example.test/a'' example_url
     (example_response code (Inr body)) body"
  by (simp add: reaches_classifier_def example_env_def example_response_def
      default_config_def promote_def)

lemma example_disk_ok: "disk_ok (example_env answer None)"
  by (simp add: disk_ok_def example_env_def)

lemma example_transcript:
  "requestPart (promote (default_config\<lparr>outputDir := dir\<rparr>)) ''http://example.test/a'' =
     ''GET http://example.test/a'' @ [LF, LF, LF]"
  "Proto (example_response code body) = ''HTTP/1.1''"
  "Status (example_response 200 body) = ''200''"
  by (simp_all add: requestPart_def promote_def default_config_def example_response_def
      fmt_d_def decimal.simps digit_def)

text \<open>
  A response whose header arrived as \<open>content-type\<close>, \<open>Set-Cookie\<close>, \<open>Set-Cookie\<close>, with
  \<open>range\<close> visiting \<open>Set-Cookie\<close> first.
\<close>

theorem transcript_response_headers_witness:
  "map snd (copied (snd (task (example_env (Inr (example_response 200 (Inr ''ok''))) None)
      (default_config\<lparr>outputDir := ''out''\<rparr>) ''http://example.test/a''))) =
     [''GET http://example.test/a'' @ [LF, LF, LF] @ ''< HTTP/1.1 200'' @ [LF] @
      ''< Set-Cookie: a=1'' @ [LF] @ ''< Set-Cookie: b=2'' @ [LF] @
      ''< Content-Type: text/plain'' @ [LF]] \<and>
   map snd (filter (\<lambda>kv. fst kv = ''Set-Cookie'')
     (header_entries (Header (example_response 200 (Inr ''ok'')))
        (map_range (example_env (Inr (example_response 200 (Inr ''ok''))) None)
           (Header (example_response 200 (Inr ''ok'')))))) = [''a=1'', ''b=2'']"
proof -
  let ?resp = "example_response 200 (Inr ''ok'')"
  let ?e = "example_env (Inr ?resp) None"
  let ?cfg = "default_config\<lparr>outputDir := ''out''\<rparr>"
  have r: "map_range ?e (Header ?resp) = [''Set-Cookie'', ''Content-Type'']"
    by (simp add: example_env_def)
  have k: "classify ?cfg ''ok'' (StatusCode ?resp) = None"
    by (simp add: classify_def default_config_def)
  have o: "outputDir ?cfg \<noteq> []"
    by simp
  have d: "distinct (map_range ?e (Header ?resp))"
    "set (map_range ?e (Header ?resp)) = dom (Header ?resp)"
    unfolding r by (auto simp: example_header)
  note t = transcript_response_headers [OF example_artifact_reaches [of 200 "''ok''" None "''out''"]
      k o example_disk_ok d, of "''Set-Cookie''" "[]"]
  from t [THEN conjunct1]
  have "map snd (copied (snd (task ?e ?cfg ''http://example.test/a''))) =
     [''GET http://example.test/a'' @ [LF, LF, LF] @ ''< HTTP/1.1 200'' @ [LF] @
      ''< Set-Cookie: a=1'' @ [LF] @ ''< Set-Cookie: b=2'' @ [LF] @
      ''< Content-Type: text/plain'' @ [LF]]"
    unfolding r example_entries example_transcript by (simp add: headerLine_def)
  moreover from t [THEN conjunct2, THEN conjunct1]
  have "map snd (filter (\<lambda>kv. fst kv = ''Set-Cookie'')
     (header_entries (Header ?resp) (map_range ?e (Header ?resp)))) = [''a=1'', ''b=2'']"
    by (simp add: example_header)
  ultimately show ?thesis by simp
qed

text \<open>
  Claim C8 as it is worded does not hold: the same response, whose first header line on
  the wire is \<open>content-type\<close>, is written with its \<open>Content-Type\<close> line last.
\<close>

theorem transcript_insertion_order_counterexample:
  "Header (example_response 200 (Inr ''ok'')) =
     ReadMIMEHeader
       [(''content-type'', ''text/plain''), (''Set-Cookie'', ''a=1''), (''Set-Cookie'', ''b=2'')] \<and>
   distinct (map_range (example_env (Inr (example_response 200 (Inr ''ok''))) None)
     (Header (example_response 200 (Inr ''ok'')))) \<and>
   set (map_range (example_env (Inr (example_response 200 (Inr ''ok''))) None)
     (Header (example_response 200 (Inr ''ok'')))) = dom (Header (example_response 200 (Inr ''ok''))) \<and>
   map snd (copied (snd (task (example_env (Inr (example_response 200 (Inr ''ok''))) None)
      (default_config\<lparr>outputDir := ''out''\<rparr>) ''http://example.test/a''))) =
     [''GET http://example.test/a'' @ [LF, LF, LF] @ ''< HTTP/1.1 200'' @ [LF] @
      ''< Set-Cookie: a=1'' @ [LF] @ ''< Set-Cookie: b=2'' @ [LF] @
      ''< Content-Type: text/plain'' @ [LF]] \<and>
   header_entries (Header (example_response 200 (Inr ''ok'')))
     (map_range (example_env (Inr (example_response 200 (Inr ''ok''))) None)
        (Header (example_response 200 (Inr ''ok'')))) \<noteq>
     [(''Content-Type'', ''text/plain''), (''Set-Cookie'', ''a=1''), (''Set-Cookie'', ''b=2'')]"
proof -
  let ?resp = "example_response 200 (Inr ''ok'')"
  let ?e = "example_env (Inr ?resp) None"
  let ?cfg = "default_config\<lparr>outputDir := ''out''\<rparr>"
  have r: "map_range ?e (Header ?resp) = [''Set-Cookie'', ''Content-Type'']"
    by (simp add: example_env_def)
  have k: "classify ?cfg ''ok'' (StatusCode ?resp) = None"
    by (simp add: classify_def default_config_def)
  have o: "outputDir ?cfg \<noteq> []"
    by simp
  have d: "distinct (map_range ?e (Header ?resp))"
    "set (map_range ?e (Header ?resp)) = dom (Header ?resp)"
    unfolding r by (auto simp: example_header)
  have n: "header_entries (Header ?resp) (map_range ?e (Header ?resp)) \<noteq>
     [(''Content-Type'', ''text/plain''), (''Set-Cookie'', ''a=1''), (''Set-Cookie'', ''b=2'')]"
    unfolding r example_entries by simp
  have h: "Header ?resp = ReadMIMEHeader
       [(''content-type'', ''text/plain''), (''Set-Cookie'', ''a=1''), (''Set-Cookie'', ''b=2'')]"
    by (simp add: example_response_def)
  from copied_task_kept [OF example_artifact_reaches [of 200 "''ok''" None "''out''"]
      k o example_disk_ok]
  have "map snd (copied (snd (task ?e ?cfg ''http://example.test/a''))) =
     [''GET http://example.test/a'' @ [LF, LF, LF] @ ''< HTTP/1.1 200'' @ [LF] @
      ''< Set-Cookie: a=1'' @ [LF] @ ''< Set-Cookie: b=2'' @ [LF] @
      ''< Content-Type: text/plain'' @ [LF]]"
    unfolding transcript_parts r example_entries example_transcript
    by (simp add: headerLine_def)
  with d h n show ?thesis by simp
qed

end
